theory Spec2Isabelle
  imports Complex_Main "HOL-Library.Word"
begin

section \<open>The Ao evaluator: opcodes, outcomes and floating-point operations\<close>

text \<open>
  The opcodes of \<^verbatim>\<open>Opcode::Opcode\<close>, as the switch statements of the evaluator list them.
  \<^verbatim>\<open>CONST\<close>, \<^verbatim>\<open>MIN\<close> and \<^verbatim>\<open>MAX\<close> are reserved words of the term language and carry the
  suffix \<open>_op\<close>.
\<close>

datatype Opcode =
    INVALID | CONST_op | VAR_X | VAR_Y | VAR_Z | AFFINE_VEC
  | SQUARE | SQRT | NEG | ABS | SIN | COS | TAN | ASIN | ACOS | ATAN | EXP
  | ADD | MUL | MIN_op | MAX_op | SUB | DIV | ATAN2 | POW | NTH_ROOT | MOD | NANFILL
  | DUMMY_A | DUMMY_B | LAST_OP

text \<open>
  What a call can do besides returning: fail an \<^verbatim>\<open>assert\<close> (the build keeps assertions:
  its flags define \<^verbatim>\<open>RELEASE\<close>, not \<^verbatim>\<open>NDEBUG\<close>), throw \<^verbatim>\<open>std::out_of_range\<close> from
  \<^verbatim>\<open>unordered_map::at\<close>, read or write outside a buffer or through a null pointer, or
  loop forever.
\<close>

datatype fault = AssertFailed | OutOfRange | BadAccess

datatype 'a outcome = Ok 'a | Fault fault | Diverge

fun obind :: "'a outcome \<Rightarrow> ('a \<Rightarrow> 'b outcome) \<Rightarrow> 'b outcome" where
  "obind (Ok x) g = g x"
| "obind (Fault e) g = Fault e"
| "obind Diverge g = Diverge"

definition bin :: "'a outcome \<Rightarrow> 'a outcome \<Rightarrow> ('a \<Rightarrow> 'a \<Rightarrow> 'b) \<Rightarrow> 'b outcome" where
  "bin a b g = obind a (\<lambda>x. obind b (\<lambda>y. Ok (g x y)))"

definition un :: "'a outcome \<Rightarrow> ('a \<Rightarrow> 'b) \<Rightarrow> 'b outcome" where
  "un a g = obind a (\<lambda>x. Ok (g x))"

text \<open>
  The kernels are written over the C type \<^verbatim>\<open>float\<close> and the functions of \<^verbatim>\<open><cmath>\<close>.
  Their bit-level behaviour is not part of this repository, so the kernels take the
  float type \<open>'f\<close> and its operations as a parameter: one field per operator or library
  function the source calls. \<open>flit\<close> is the conversion of an integer literal
  (\<^verbatim>\<open>0\<close>, \<^verbatim>\<open>1.0f\<close>, \<^verbatim>\<open>2\<close>) and \<open>flt\<close> the comparison \<^verbatim>\<open><\<close>.
\<close>

record 'f flops =
  fadd :: "'f \<Rightarrow> 'f \<Rightarrow> 'f"
  fsub :: "'f \<Rightarrow> 'f \<Rightarrow> 'f"
  fmul :: "'f \<Rightarrow> 'f \<Rightarrow> 'f"
  fdiv :: "'f \<Rightarrow> 'f \<Rightarrow> 'f"
  fneg :: "'f \<Rightarrow> 'f"
  flt :: "'f \<Rightarrow> 'f \<Rightarrow> bool"
  flit :: "int \<Rightarrow> 'f"
  fisnan :: "'f \<Rightarrow> bool"
  c_fmin :: "'f \<Rightarrow> 'f \<Rightarrow> 'f"
  c_fmax :: "'f \<Rightarrow> 'f \<Rightarrow> 'f"
  c_atan2 :: "'f \<Rightarrow> 'f \<Rightarrow> 'f"
  c_pow :: "'f \<Rightarrow> 'f \<Rightarrow> 'f"
  c_fmod :: "'f \<Rightarrow> 'f \<Rightarrow> 'f"
  c_sqrt :: "'f \<Rightarrow> 'f"
  c_fabs :: "'f \<Rightarrow> 'f"
  c_sin :: "'f \<Rightarrow> 'f"
  c_cos :: "'f \<Rightarrow> 'f"
  c_tan :: "'f \<Rightarrow> 'f"
  c_asin :: "'f \<Rightarrow> 'f"
  c_acos :: "'f \<Rightarrow> 'f"
  c_atan :: "'f \<Rightarrow> 'f"
  c_exp :: "'f \<Rightarrow> 'f"

section \<open>The scalar value kernel\<close>

text \<open>
  A buffer is a \<^verbatim>\<open>float*\<close>: \<open>None\<close> is the null pointer, \<open>Some xs\<close> points to the
  floats \<open>xs\<close>. Reading element \<open>i\<close> outside the buffer is undefined behaviour in C++
  and the fault \<open>BadAccess\<close> here.
\<close>

type_synonym 'f buf = "'f list option"

fun rd :: "'f buf \<Rightarrow> nat \<Rightarrow> 'f outcome" where
  "rd None i = Fault BadAccess"
| "rd (Some xs) i = (if i < length xs then Ok (xs ! i) else Fault BadAccess)"

text \<open>
  The \<^verbatim>\<open>MOD\<close> case: \<^verbatim>\<open>out[i] = std::fmod(a[i], b[i]); while (out[i] < 0) out[i] += b[i];\<close>
  The loop need not end, so it is a partial function: \<open>None\<close> is "never returns".
\<close>

partial_function (option) mod_loop :: "'f flops \<Rightarrow> 'f \<Rightarrow> 'f \<Rightarrow> 'f option" where
  "mod_loop F out b =
     (if flt F out (flit F 0) then mod_loop F (fadd F out b) b else Some out)"

definition mod_elem :: "'f flops \<Rightarrow> 'f \<Rightarrow> 'f \<Rightarrow> 'f outcome" where
  "mod_elem F a b =
     (case mod_loop F (c_fmod F a b) b of None \<Rightarrow> Diverge | Some r \<Rightarrow> Ok r)"

text \<open>The opcodes whose case in every kernel is \<^verbatim>\<open>assert(false)\<close>.\<close>

fun asserts :: "Opcode \<Rightarrow> bool" where
  "asserts INVALID = True"
| "asserts CONST_op = True"
| "asserts VAR_X = True"
| "asserts VAR_Y = True"
| "asserts VAR_Z = True"
| "asserts AFFINE_VEC = True"
| "asserts LAST_OP = True"
| "asserts _ = False"

text \<open>
  One iteration of \<^verbatim>\<open>EVAL_LOOP\<close> in the value kernel: the value stored to \<^verbatim>\<open>out[i]\<close>,
  from the reads of \<^verbatim>\<open>a[i]\<close> and \<^verbatim>\<open>b[i]\<close>. A read that the case does not make is not
  made here either (a unary clause has a null \<^verbatim>\<open>b\<close>).
\<close>

fun elem :: "'f flops \<Rightarrow> Opcode \<Rightarrow> 'f outcome \<Rightarrow> 'f outcome \<Rightarrow> 'f outcome" where
  "elem F ADD a b = bin a b (fadd F)"
| "elem F MUL a b = bin a b (fmul F)"
| "elem F MIN_op a b = bin a b (c_fmin F)"
| "elem F MAX_op a b = bin a b (c_fmax F)"
| "elem F SUB a b = bin a b (fsub F)"
| "elem F DIV a b = bin a b (fdiv F)"
| "elem F ATAN2 a b = bin a b (c_atan2 F)"
| "elem F POW a b = bin a b (c_pow F)"
| "elem F NTH_ROOT a b = bin a b (\<lambda>x y. c_pow F x (fdiv F (flit F 1) y))"
| "elem F MOD a b = obind a (\<lambda>x. obind b (\<lambda>y. mod_elem F x y))"
| "elem F NANFILL a b = obind a (\<lambda>x. if fisnan F x then b else Ok x)"
| "elem F SQUARE a b = un a (\<lambda>x. fmul F x x)"
| "elem F SQRT a b = un a (c_sqrt F)"
| "elem F NEG a b = un a (fneg F)"
| "elem F ABS a b = un a (c_fabs F)"
| "elem F SIN a b = un a (c_sin F)"
| "elem F COS a b = un a (c_cos F)"
| "elem F TAN a b = un a (c_tan F)"
| "elem F ASIN a b = un a (c_asin F)"
| "elem F ACOS a b = un a (c_acos F)"
| "elem F ATAN a b = un a (c_atan F)"
| "elem F EXP a b = un a (c_exp F)"
| "elem F DUMMY_A a b = a"
| "elem F DUMMY_B a b = b"
| "elem F _ a b = Fault AssertFailed"

text \<open>
  \<^verbatim>\<open>EVAL_LOOP\<close>: \<^verbatim>\<open>for (size_t i=0; i < count; ++i) out[i] = ...\<close>, from index \<open>i\<close> on.
  \<open>g i\<close> is the value computed for element \<open>i\<close>; the store to \<^verbatim>\<open>out[i]\<close> faults
  outside the buffer.
\<close>

function eval_loop :: "(nat \<Rightarrow> 'f outcome) \<Rightarrow> 'f list \<Rightarrow> nat \<Rightarrow> nat \<Rightarrow> 'f list outcome" where
  "eval_loop g out i count =
     (if i < count
      then (case g i of
              Ok v \<Rightarrow> (if i < length out then eval_loop g (out[i := v]) (Suc i) count
                        else Fault BadAccess)
            | Fault e \<Rightarrow> Fault e
            | Diverge \<Rightarrow> Diverge)
      else Ok out)"
  by pat_completeness auto
termination
  by (relation "measure (\<lambda>(g, out, i, count). count - i)") auto

declare eval_loop.simps [simp del]

text \<open>
  \<^verbatim>\<open>static void clause(Opcode::Opcode op, const float* a, const float* b, float* out,
  size_t count)\<close>: the scalar value kernel. It returns the contents of \<^verbatim>\<open>out\<close>.
\<close>

definition clause :: "'f flops \<Rightarrow> Opcode \<Rightarrow> 'f buf \<Rightarrow> 'f buf \<Rightarrow> 'f list \<Rightarrow> nat \<Rightarrow> 'f list outcome" where
  "clause F op a b out count =
     (if asserts op then Fault AssertFailed
      else eval_loop (\<lambda>i. elem F op (rd a i) (rd b i)) out 0 count)"

section \<open>The scalar derivative kernel\<close>

text \<open>
  The reads \<^verbatim>\<open>adx[i]\<close>, \<^verbatim>\<open>ady[i]\<close>, \<^verbatim>\<open>adz[i]\<close> of one operand's gradient at one element.
\<close>

type_synonym 'f grad = "'f outcome \<times> 'f outcome \<times> 'f outcome"

text \<open>
  The three assignments \<^verbatim>\<open>odx[i] = ..; ody[i] = ..; odz[i] = ..\<close> of a case apply one
  expression \<open>h\<close> to the x, y and z components in turn.
\<close>

fun map3 :: "('f outcome \<Rightarrow> 'f outcome \<Rightarrow> 'f outcome) \<Rightarrow> 'f grad \<Rightarrow> 'f grad \<Rightarrow> ('f \<times> 'f \<times> 'f) outcome" where
  "map3 h (ax, ay, az) (bx, by, bz) =
     obind (h ax bx) (\<lambda>x. obind (h ay by) (\<lambda>y. obind (h az bz) (\<lambda>z. Ok (x, y, z))))"

text \<open>
  One iteration of \<^verbatim>\<open>EVAL_LOOP\<close> in the second switch of the derivative kernel: the
  gradient stored to \<^verbatim>\<open>odx[i], ody[i], odz[i]\<close>. \<open>av\<close>, \<open>bv\<close> and \<open>ov\<close> are the reads of
  \<^verbatim>\<open>av[i]\<close>, \<^verbatim>\<open>bv[i]\<close> and \<^verbatim>\<open>ov[i]\<close> (the value the first pass has just stored).
\<close>

fun delem :: "'f flops \<Rightarrow> Opcode \<Rightarrow> 'f outcome \<Rightarrow> 'f grad \<Rightarrow> 'f outcome \<Rightarrow> 'f grad \<Rightarrow> 'f outcome
    \<Rightarrow> ('f \<times> 'f \<times> 'f) outcome" where
  "delem F ADD av ad bv bd ov = map3 (\<lambda>p q. bin p q (fadd F)) ad bd"
| "delem F MUL av ad bv bd ov =
     map3 (\<lambda>p q. obind av (\<lambda>a. obind bv (\<lambda>b.
       bin p q (\<lambda>da db. fadd F (fmul F a db) (fmul F da b))))) ad bd"
| "delem F MIN_op av ad bv bd ov =
     obind av (\<lambda>a. obind bv (\<lambda>b.
       if flt F a b then map3 (\<lambda>p q. p) ad bd else map3 (\<lambda>p q. q) ad bd))"
| "delem F MAX_op av ad bv bd ov =
     obind av (\<lambda>a. obind bv (\<lambda>b.
       if flt F a b then map3 (\<lambda>p q. q) ad bd else map3 (\<lambda>p q. p) ad bd))"
| "delem F SUB av ad bv bd ov = map3 (\<lambda>p q. bin p q (fsub F)) ad bd"
| "delem F DIV av ad bv bd ov =
     obind av (\<lambda>a. obind bv (\<lambda>b.
       map3 (\<lambda>p q. bin p q (\<lambda>da db.
         fdiv F (fsub F (fmul F b da) (fmul F a db)) (c_pow F b (flit F 2)))) ad bd))"
| "delem F ATAN2 av ad bv bd ov =
     obind av (\<lambda>a. obind bv (\<lambda>b.
       map3 (\<lambda>p q. bin p q (\<lambda>da db.
         fdiv F (fsub F (fmul F da b) (fmul F a db))
                (fadd F (c_pow F a (flit F 2)) (c_pow F b (flit F 2))))) ad bd))"
| "delem F POW av ad bv bd ov =
     obind av (\<lambda>a. obind bv (\<lambda>b.
       map3 (\<lambda>p q. un p (\<lambda>da.
         fmul F (c_pow F a (fsub F b (flit F 1))) (fmul F b da))) ad bd))"
| "delem F NTH_ROOT av ad bv bd ov =
     obind av (\<lambda>a. obind bv (\<lambda>b.
       map3 (\<lambda>p q. un p (\<lambda>da.
         fmul F (c_pow F a (fsub F (fdiv F (flit F 1) b) (flit F 1)))
                (fmul F (fdiv F (flit F 1) b) da))) ad bd))"
| "delem F MOD av ad bv bd ov = map3 (\<lambda>p q. p) ad bd"
| "delem F NANFILL av ad bv bd ov =
     map3 (\<lambda>p q. obind av (\<lambda>a. if fisnan F a then q else p)) ad bd"
| "delem F SQUARE av ad bv bd ov =
     obind av (\<lambda>a. map3 (\<lambda>p q. un p (\<lambda>da. fmul F (fmul F (flit F 2) a) da)) ad bd)"
| "delem F SQRT av ad bv bd ov =
     obind av (\<lambda>a.
       if flt F a (flit F 0) then Ok (flit F 0, flit F 0, flit F 0)
       else map3 (\<lambda>p q. bin p ov (\<lambda>da v. fdiv F da (fmul F (flit F 2) v))) ad bd)"
| "delem F NEG av ad bv bd ov = map3 (\<lambda>p q. un p (fneg F)) ad bd"
| "delem F ABS av ad bv bd ov =
     obind av (\<lambda>a.
       if flt F a (flit F 0) then map3 (\<lambda>p q. un p (fneg F)) ad bd
       else map3 (\<lambda>p q. p) ad bd)"
| "delem F SIN av ad bv bd ov =
     obind av (\<lambda>a. map3 (\<lambda>p q. un p (\<lambda>da. fmul F da (c_cos F a))) ad bd)"
| "delem F COS av ad bv bd ov =
     obind av (\<lambda>a. map3 (\<lambda>p q. un p (\<lambda>da. fmul F da (fneg F (c_sin F a)))) ad bd)"
| "delem F TAN av ad bv bd ov =
     obind av (\<lambda>a. map3 (\<lambda>p q. un p (\<lambda>da.
       fmul F da (c_pow F (fdiv F (flit F 1) (c_cos F a)) (flit F 2)))) ad bd)"
| "delem F ASIN av ad bv bd ov =
     obind av (\<lambda>a. map3 (\<lambda>p q. un p (\<lambda>da.
       fdiv F da (c_sqrt F (fsub F (flit F 1) (c_pow F a (flit F 2)))))) ad bd)"
| "delem F ACOS av ad bv bd ov =
     obind av (\<lambda>a. map3 (\<lambda>p q. un p (\<lambda>da.
       fdiv F da (fneg F (c_sqrt F (fsub F (flit F 1) (c_pow F a (flit F 2))))))) ad bd)"
| "delem F ATAN av ad bv bd ov =
     obind av (\<lambda>a. map3 (\<lambda>p q. un p (\<lambda>da.
       fdiv F da (fadd F (c_pow F a (flit F 2)) (flit F 1)))) ad bd)"
| "delem F EXP av ad bv bd ov =
     obind av (\<lambda>a. map3 (\<lambda>p q. un p (\<lambda>da. fmul F (c_exp F a) da)) ad bd)"
| "delem F DUMMY_A av ad bv bd ov = map3 (\<lambda>p q. p) ad bd"
| "delem F DUMMY_B av ad bv bd ov = map3 (\<lambda>p q. q) ad bd"
| "delem F _ av ad bv bd ov = Fault AssertFailed"

text \<open>
  The four pointers of one clause's result: \<^verbatim>\<open>f\<close>, \<^verbatim>\<open>dx\<close>, \<^verbatim>\<open>dy\<close>, \<^verbatim>\<open>dz\<close> (the fields of
  \<^verbatim>\<open>ptrs.a\<close> and \<^verbatim>\<open>ptrs.b\<close> that the evaluator passes to the kernels).
\<close>

record 'f ResultPtrs =
  pf :: "'f buf"
  pdx :: "'f buf"
  pdy :: "'f buf"
  pdz :: "'f buf"

definition rd_grad :: "'f ResultPtrs \<Rightarrow> nat \<Rightarrow> 'f grad" where
  "rd_grad p i = (rd (pdx p) i, rd (pdy p) i, rd (pdz p) i)"

text \<open>The output buffers \<^verbatim>\<open>ov, odx, ody, odz\<close> of the derivative kernel.\<close>

record 'f Out =
  ov :: "'f list"
  odx :: "'f list"
  ody :: "'f list"
  odz :: "'f list"

text \<open>
  \<^verbatim>\<open>EVAL_LOOP\<close> of the second switch: three stores per element, each faulting outside
  its buffer.
\<close>

function grad_loop :: "(nat \<Rightarrow> ('f \<times> 'f \<times> 'f) outcome) \<Rightarrow> 'f Out \<Rightarrow> nat \<Rightarrow> nat \<Rightarrow> 'f Out outcome" where
  "grad_loop g out i count =
     (if i < count
      then (case g i of
              Ok (x, y, z) \<Rightarrow>
                (if i < length (odx out) \<and> i < length (ody out) \<and> i < length (odz out)
                 then grad_loop g (out\<lparr>odx := (odx out)[i := x], ody := (ody out)[i := y],
                                         odz := (odz out)[i := z]\<rparr>) (Suc i) count
                 else Fault BadAccess)
            | Fault e \<Rightarrow> Fault e
            | Diverge \<Rightarrow> Diverge)
      else Ok out)"
  by pat_completeness auto
termination
  by (relation "measure (\<lambda>(g, out, i, count). count - i)") auto

declare grad_loop.simps [simp del]

text \<open>
  \<^verbatim>\<open>static void clause(Opcode::Opcode op, const float* av, const float* adx, ...,
  float* ov, float* odx, float* ody, float* odz, size_t count)\<close>: the scalar derivative
  kernel. The values are evaluated in a first pass by the value kernel, then the
  gradients in a second loop. The second switch ends in \<^verbatim>\<open>assert(false)\<close> for the same
  opcodes as the first, which has already failed for them.
\<close>

definition clause_d :: "'f flops \<Rightarrow> Opcode \<Rightarrow> 'f ResultPtrs \<Rightarrow> 'f ResultPtrs \<Rightarrow> 'f Out \<Rightarrow> nat
    \<Rightarrow> 'f Out outcome" where
  "clause_d F op a b out count =
     obind (clause F op (pf a) (pf b) (ov out) count) (\<lambda>v.
       if asserts op then Fault AssertFailed
       else grad_loop (\<lambda>i. delem F op (rd (pf a) i) (rd_grad a i) (rd (pf b) i) (rd_grad b i)
                               (rd (Some v) i))
              (out\<lparr>ov := v\<rparr>) 0 count)"

section \<open>The AVX kernels\<close>

















section \<open>The interval kernel\<close>

text \<open>
  \<^verbatim>\<open>Interval\<close> is an instance of \<^verbatim>\<open>boost::numeric::interval\<close>: a pair of bounds. Its
  arithmetic belongs to the Boost library, so the interval kernel takes it as a
  parameter, one field per Boost operation the evaluator calls. \<open>i_make\<close> is the
  two-argument constructor, \<open>i_default\<close> the default constructor \<^verbatim>\<open>Interval()\<close>;
  \<open>i_pow\<close> and \<open>i_nth_root\<close> receive the \<^verbatim>\<open>float\<close> that the call site passes for
  Boost's \<^verbatim>\<open>int\<close> parameter. \<open>i_scale\<close> and \<open>i_shift\<close> are \<^verbatim>\<open>float * Interval\<close>
  and \<^verbatim>\<open>Interval + float\<close>.
\<close>

record 'f Interval =
  lower :: 'f
  upper :: 'f

record 'f iops =
  i_make :: "'f \<Rightarrow> 'f \<Rightarrow> 'f Interval"
  i_default :: "'f Interval"
  i_add :: "'f Interval \<Rightarrow> 'f Interval \<Rightarrow> 'f Interval"
  i_sub :: "'f Interval \<Rightarrow> 'f Interval \<Rightarrow> 'f Interval"
  i_mul :: "'f Interval \<Rightarrow> 'f Interval \<Rightarrow> 'f Interval"
  i_div :: "'f Interval \<Rightarrow> 'f Interval \<Rightarrow> 'f Interval"
  i_min :: "'f Interval \<Rightarrow> 'f Interval \<Rightarrow> 'f Interval"
  i_max :: "'f Interval \<Rightarrow> 'f Interval \<Rightarrow> 'f Interval"
  i_atan2 :: "'f Interval \<Rightarrow> 'f Interval \<Rightarrow> 'f Interval"
  i_pow :: "'f Interval \<Rightarrow> 'f \<Rightarrow> 'f Interval"
  i_nth_root :: "'f Interval \<Rightarrow> 'f \<Rightarrow> 'f Interval"
  i_square :: "'f Interval \<Rightarrow> 'f Interval"
  i_sqrt :: "'f Interval \<Rightarrow> 'f Interval"
  i_neg :: "'f Interval \<Rightarrow> 'f Interval"
  i_abs :: "'f Interval \<Rightarrow> 'f Interval"
  i_sin :: "'f Interval \<Rightarrow> 'f Interval"
  i_cos :: "'f Interval \<Rightarrow> 'f Interval"
  i_tan :: "'f Interval \<Rightarrow> 'f Interval"
  i_asin :: "'f Interval \<Rightarrow> 'f Interval"
  i_acos :: "'f Interval \<Rightarrow> 'f Interval"
  i_atan :: "'f Interval \<Rightarrow> 'f Interval"
  i_exp :: "'f Interval \<Rightarrow> 'f Interval"
  i_scale :: "'f \<Rightarrow> 'f Interval \<Rightarrow> 'f Interval"
  i_shift :: "'f Interval \<Rightarrow> 'f \<Rightarrow> 'f Interval"

text \<open>
  \<^verbatim>\<open>static Interval clause(Opcode::Opcode op, const Interval& a, const Interval& b)\<close>.
  \<^verbatim>\<open>POW\<close> and \<^verbatim>\<open>NTH_ROOT\<close> pass \<^verbatim>\<open>b.lower()\<close>; \<^verbatim>\<open>MOD\<close> builds \<^verbatim>\<open>Interval(0.0f, b.upper())\<close>.
\<close>

fun clause_i :: "'f flops \<Rightarrow> 'f iops \<Rightarrow> Opcode \<Rightarrow> 'f Interval \<Rightarrow> 'f Interval \<Rightarrow> 'f Interval outcome" where
  "clause_i F I ADD a b = Ok (i_add I a b)"
| "clause_i F I MUL a b = Ok (i_mul I a b)"
| "clause_i F I MIN_op a b = Ok (i_min I a b)"
| "clause_i F I MAX_op a b = Ok (i_max I a b)"
| "clause_i F I SUB a b = Ok (i_sub I a b)"
| "clause_i F I DIV a b = Ok (i_div I a b)"
| "clause_i F I ATAN2 a b = Ok (i_atan2 I a b)"
| "clause_i F I POW a b = Ok (i_pow I a (lower b))"
| "clause_i F I NTH_ROOT a b = Ok (i_nth_root I a (lower b))"
| "clause_i F I MOD a b = Ok (i_make I (flit F 0) (upper b))"
| "clause_i F I NANFILL a b = Ok (if fisnan F (lower a) \<or> fisnan F (upper a) then b else a)"
| "clause_i F I SQUARE a b = Ok (i_square I a)"
| "clause_i F I SQRT a b = Ok (i_sqrt I a)"
| "clause_i F I NEG a b = Ok (i_neg I a)"
| "clause_i F I ABS a b = Ok (i_abs I a)"
| "clause_i F I SIN a b = Ok (i_sin I a)"
| "clause_i F I COS a b = Ok (i_cos I a)"
| "clause_i F I TAN a b = Ok (i_tan I a)"
| "clause_i F I ASIN a b = Ok (i_asin I a)"
| "clause_i F I ACOS a b = Ok (i_acos I a)"
| "clause_i F I ATAN a b = Ok (i_atan I a)"
| "clause_i F I EXP a b = Ok (i_exp I a)"
| "clause_i F I DUMMY_A a b = Ok a"
| "clause_i F I DUMMY_B a b = Ok b"
| "clause_i F I _ a b = Fault AssertFailed"

section \<open>Clauses, rows and the evaluator\<close>

text \<open>
  \<^verbatim>\<open>Result\<close>, \<^verbatim>\<open>Clause\<close> and \<^verbatim>\<open>Row\<close> are declared in headers that the evaluator includes.
  The records hold the members that the evaluator's code reads and writes: a result's
  arrays \<^verbatim>\<open>f, dx, dy, dz\<close> and interval \<^verbatim>\<open>i\<close>; a clause's \<^verbatim>\<open>op\<close>, \<^verbatim>\<open>value\<close>, \<^verbatim>\<open>a\<close>, \<^verbatim>\<open>b\<close>,
  \<^verbatim>\<open>disabled\<close> and \<^verbatim>\<open>result\<close>; a row's vector of clause pointers, its \<^verbatim>\<open>active\<close> count and
  the stack that \<^verbatim>\<open>push\<close> and \<^verbatim>\<open>pop\<close> use. Field names carry a prefix, since a record
  field is a constant of the whole theory.

  A \<^verbatim>\<open>Clause*\<close> is the clause's position in the \<^verbatim>\<open>data\<close> array, \<open>None\<close> for the null
  pointer. Every clause pointer of the evaluator comes from the placement-new in
  \<^verbatim>\<open>newClause\<close>, so the store \<open>ev_data\<close> is a total map from positions to clauses.
\<close>

record 'f Result =
  res_f :: "'f list"
  res_dx :: "'f list"
  res_dy :: "'f list"
  res_dz :: "'f list"
  res_i :: "'f Interval"

record 'f Clause =
  cl_op :: Opcode
  cl_value :: 'f
  cl_a :: "nat option"
  cl_b :: "nat option"
  cl_disabled :: bool
  cl_result :: "'f Result"

record Row =
  row_clauses :: "nat list"
  row_active :: nat
  row_disabled :: "nat list"

record 'f Evaluator =
  ev_M :: "nat \<Rightarrow> nat \<Rightarrow> 'f"
  ev_Mi :: "nat \<Rightarrow> nat \<Rightarrow> 'f"
  ev_data :: "nat \<Rightarrow> 'f Clause"
  ev_X :: nat
  ev_Y :: nat
  ev_Z :: nat
  ev_rows :: "Row list"
  ev_root :: nat

text \<open>
  \<^verbatim>\<open>Opcode::Opcode Evaluator::getOpcode(Clause* c)\<close>.
\<close>

definition getOpcode :: "'f Evaluator \<Rightarrow> nat \<Rightarrow> Opcode" where
  "getOpcode e c =
     (if cl_a (ev_data e c) \<noteq> None \<and> cl_disabled (ev_data e (the (cl_a (ev_data e c))))
      then DUMMY_B
      else if cl_b (ev_data e c) \<noteq> None \<and> cl_disabled (ev_data e (the (cl_b (ev_data e c))))
      then DUMMY_A
      else cl_op (ev_data e c))"

section \<open>Evaluation passes\<close>

text \<open>
  A loop body that can fault, run over a list in order: the first fault or divergence
  ends the loop.
\<close>

fun ofold :: "('a \<Rightarrow> 's \<Rightarrow> 's outcome) \<Rightarrow> 'a list \<Rightarrow> 's \<Rightarrow> 's outcome" where
  "ofold step [] s = Ok s"
| "ofold step (x # xs) s = obind (step x s) (ofold step xs)"



text \<open>
  Modelled from the spec: the constructor of \<^verbatim>\<open>Clause\<close>, which fills \<^verbatim>\<open>ptrs.a\<close> and
  \<^verbatim>\<open>ptrs.b\<close>, is not among the sources. The spec calls them "cached pointers to operand
  buffers": \<^verbatim>\<open>ptrs.a\<close> points to the result arrays of clause \<^verbatim>\<open>a\<close>, and is null when \<^verbatim>\<open>a\<close>
  is. The kernels receive the operand arrays as they are when the call is made; the
  output array is \<^verbatim>\<open>__restrict\<close>, so it is none of them.
\<close>

definition ptrs :: "'f Evaluator \<Rightarrow> nat option \<Rightarrow> 'f ResultPtrs" where
  "ptrs e p = (case p of
       None \<Rightarrow> \<lparr>pf = None, pdx = None, pdy = None, pdz = None\<rparr>
     | Some k \<Rightarrow> (let r = cl_result (ev_data e k)
                 in \<lparr>pf = Some (res_f r), pdx = Some (res_dx r),
                     pdy = Some (res_dy r), pdz = Some (res_dz r)\<rparr>))"

definition upd_result :: "'f Evaluator \<Rightarrow> nat \<Rightarrow> ('f Result \<Rightarrow> 'f Result) \<Rightarrow> 'f Evaluator" where
  "upd_result e c g =
     e\<lparr>ev_data := (ev_data e)(c := (ev_data e c)\<lparr>cl_result := g (cl_result (ev_data e c))\<rparr>)\<rparr>"


text \<open>
  The vectorized path first replaces the batch size by a number of 8-lane chunks,
  \<^verbatim>\<open>count = (count - 1)/8 + 1\<close> in \<^verbatim>\<open>Evaluator::values\<close> and
  \<^verbatim>\<open>size_t vc = (count - 1)/8 + 1\<close> in \<^verbatim>\<open>Evaluator::derivs\<close>, and passes it to the
  \<^verbatim>\<open>__m256\<close> kernels as the bound of their \<^verbatim>\<open>EVAL_LOOP\<close>. \<^verbatim>\<open>size_t\<close> is the 64-bit
  unsigned type of the x86-64 targets that have AVX.
\<close>

definition vec_count :: "64 word \<Rightarrow> 64 word" where
  "vec_count count = (count - 1) div 8 + 1"









text \<open>
  The body of the loop nest of \<^verbatim>\<open>Evaluator::interval\<close>: a null operand is replaced by
  the default interval.
\<close>

definition operand_i :: "'f iops \<Rightarrow> 'f Evaluator \<Rightarrow> nat option \<Rightarrow> 'f Interval" where
  "operand_i I e p = (case p of None \<Rightarrow> i_default I | Some k \<Rightarrow> res_i (cl_result (ev_data e k)))"









section \<open>Push and pop\<close>

text \<open>
  \<^verbatim>\<open>Clause::disable()\<close> and \<^verbatim>\<open>Clause::enable()\<close> set and clear the member \<^verbatim>\<open>disabled\<close>
  that \<^verbatim>\<open>getOpcode\<close> reads.
\<close>

definition set_disabled :: "'f Evaluator \<Rightarrow> nat \<Rightarrow> bool \<Rightarrow> 'f Evaluator" where
  "set_disabled e c d = e\<lparr>ev_data := (ev_data e)(c := (ev_data e c)\<lparr>cl_disabled := d\<rparr>)\<rparr>"

definition disable :: "'f Evaluator \<Rightarrow> nat \<Rightarrow> 'f Evaluator" where
  "disable e c = set_disabled e c True"













section \<open>Construction\<close>

text \<open>
  The cache is built elsewhere; the constructor reads it through \<^verbatim>\<open>opcode(t)\<close>,
  \<^verbatim>\<open>value(t)\<close>, \<^verbatim>\<open>lhs(t)\<close>, \<^verbatim>\<open>rhs(t)\<close>, \<^verbatim>\<open>X()\<close>, \<^verbatim>\<open>Y()\<close>, \<^verbatim>\<open>Z()\<close> and the iteration over
  \<^verbatim>\<open>data.left\<close>, whose entries give a key (with its \<^verbatim>\<open>opcode()\<close> and \<^verbatim>\<open>rank()\<close>) and an id.
  The record holds what these calls return; \<open>c_left\<close> lists the entries in the order
  of the iteration, as (opcode, rank, id).
\<close>

record 'f Cache =
  c_opcode :: "nat \<Rightarrow> Opcode"
  c_value :: "nat \<Rightarrow> 'f"
  c_lhs :: "nat \<Rightarrow> nat"
  c_rhs :: "nat \<Rightarrow> nat"
  c_X :: nat
  c_Y :: nat
  c_Z :: nat
  c_left :: "(Opcode \<times> nat \<times> nat) list"

text \<open>
  The local state of the constructor: the array \<^verbatim>\<open>data\<close> and the position \<^verbatim>\<open>ptr\<close> of the
  next free slot, the map \<^verbatim>\<open>clauses\<close> from cache ids to clause pointers (which starts as
  \<^verbatim>\<open>{{0, nullptr}}\<close>), and the rows.
\<close>

record 'f Build =
  b_data :: "nat \<Rightarrow> 'f Clause"
  b_ptr :: nat
  b_clauses :: "nat \<rightharpoonup> nat option"
  b_rows :: "Row list"

text \<open>
  The lambda \<^verbatim>\<open>newClause\<close>. \<^verbatim>\<open>clauses.at\<close> throws \<^verbatim>\<open>std::out_of_range\<close> for an id that has
  no entry; the placement-new writes slot \<^verbatim>\<open>ptr\<close> of an array of \<open>count\<close> slots. The
  constructor of \<^verbatim>\<open>Clause\<close> is the parameter \<open>mk\<close>.
\<close>

definition newClause :: "'f Cache \<Rightarrow> (Opcode \<Rightarrow> 'f \<Rightarrow> nat option \<Rightarrow> nat option \<Rightarrow> 'f Clause) \<Rightarrow> nat
    \<Rightarrow> nat \<Rightarrow> 'f Build \<Rightarrow> (nat \<times> 'f Build) outcome" where
  "newClause cache mk count t st =
     (case b_clauses st (c_lhs cache t) of
        None \<Rightarrow> Fault OutOfRange
      | Some pa \<Rightarrow>
          (case b_clauses st (c_rhs cache t) of
             None \<Rightarrow> Fault OutOfRange
           | Some pb \<Rightarrow>
               (if b_ptr st < count
                then Ok (b_ptr st,
                         st\<lparr>b_data := (b_data st)(b_ptr st := mk (c_opcode cache t) (c_value cache t) pa pb),
                            b_ptr := Suc (b_ptr st),
                            b_clauses := (b_clauses st)(t \<mapsto> Some (b_ptr st))\<rparr>)
                else Fault BadAccess)))"

text \<open>
  \<^verbatim>\<open>while (m.first.rank() > rows.size()) rows.push_back(Row());\<close> followed by
  \<^verbatim>\<open>rows[m.first.rank() - 1].push_back(c)\<close>. \<^verbatim>\<open>setSize\<close> comes later, so a fresh row has
  \<open>active = 0\<close>.
\<close>

definition empty_Row :: Row where
  "empty_Row = \<lparr>row_clauses = [], row_active = 0, row_disabled = []\<rparr>"

definition add_to_row :: "nat \<Rightarrow> nat \<Rightarrow> Row list \<Rightarrow> Row list" where
  "add_to_row rank c rows =
     (let rows' = rows @ replicate (rank - length rows) empty_Row;
          r = rows' ! (rank - 1)
      in rows'[rank - 1 := r\<lparr>row_clauses := row_clauses r @ [c]\<rparr>])"

text \<open>The body of the loop over \<^verbatim>\<open>cache->data.left\<close>, for one entry.\<close>

definition scan_step :: "'f Cache \<Rightarrow> (Opcode \<Rightarrow> 'f \<Rightarrow> nat option \<Rightarrow> nat option \<Rightarrow> 'f Clause) \<Rightarrow> nat
    \<Rightarrow> nat set \<Rightarrow> Opcode \<times> nat \<times> nat \<Rightarrow> 'f Build \<Rightarrow> 'f Build outcome" where
  "scan_step cache mk count conn m st =
     (case m of (opc, rank, t) \<Rightarrow>
        if t \<in> conn
        then (if opc = CONST_op
              then obind (newClause cache mk count t st) (\<lambda>(c, st'). Ok st')
              else if rank > 0
              then obind (newClause cache mk count t st) (\<lambda>(c, st').
                     Ok (st'\<lparr>b_rows := add_to_row rank c (b_rows st')\<rparr>))
              else Ok st)
        else Ok st)"

text \<open>
  \<^verbatim>\<open>X->result.deriv(1, 0, 0)\<close>: \<^verbatim>\<open>Result::deriv\<close> fills the arrays \<^verbatim>\<open>dx\<close>, \<^verbatim>\<open>dy\<close>, \<^verbatim>\<open>dz\<close> of a
  result with three constants.
\<close>

definition deriv :: "'f Clause \<Rightarrow> 'f \<Rightarrow> 'f \<Rightarrow> 'f \<Rightarrow> 'f Clause" where
  "deriv c x y z =
     c\<lparr>cl_result := (cl_result c)\<lparr>res_dx := map (\<lambda>_. x) (res_dx (cl_result c)),
                                    res_dy := map (\<lambda>_. y) (res_dy (cl_result c)),
                                    res_dz := map (\<lambda>_. z) (res_dz (cl_result c))\<rparr>\<rparr>"

text \<open>
  The constructor up to the end of the scan: the clauses of X, Y and Z with their
  derivatives, then the loop over the cache. \<open>conn\<close> is the set \<^verbatim>\<open>connected\<close> that
  \<^verbatim>\<open>cache->findConnected(root.id)\<close> returned and \<open>count = 3 + connected.size()\<close> the
  number of slots allocated.
\<close>

definition scan :: "'f flops \<Rightarrow> 'f Cache \<Rightarrow> (Opcode \<Rightarrow> 'f \<Rightarrow> nat option \<Rightarrow> nat option \<Rightarrow> 'f Clause)
    \<Rightarrow> nat set \<Rightarrow> (nat \<times> nat \<times> nat \<times> 'f Build) outcome" where
  "scan F cache mk conn =
     (let count = 3 + card conn;
          st0 = \<lparr>b_data = (\<lambda>_. mk INVALID (flit F 0) None None), b_ptr = 0,
                 b_clauses = [0 \<mapsto> None], b_rows = []\<rparr>
      in obind (newClause cache mk count (c_X cache) st0) (\<lambda>(x, st1).
         obind (newClause cache mk count (c_Y cache) st1) (\<lambda>(y, st2).
         obind (newClause cache mk count (c_Z cache) st2) (\<lambda>(z, st3).
           (let d = b_data st3;
                d1 = d(x := deriv (d x) (flit F 1) (flit F 0) (flit F 0));
                d2 = d1(y := deriv (d1 y) (flit F 0) (flit F 1) (flit F 0));
                d3 = d2(z := deriv (d2 z) (flit F 0) (flit F 0) (flit F 1))
            in obind (ofold (scan_step cache mk count conn) (c_left cache)
                        (st3\<lparr>b_data := d3\<rparr>))
                 (\<lambda>st. Ok (x, y, z, st)))))))"

text \<open>
  \<^verbatim>\<open>Evaluator::Evaluator(const Tree root_, const glm::mat4& M)\<close>, from the collapsed
  tree's cache and root id. After the scan every row gets \<^verbatim>\<open>active = size()\<close>
  (\<^verbatim>\<open>Row::setSize\<close>), and the root is looked up with \<^verbatim>\<open>clauses[root.id]\<close>, which is null
  for an id without entry: \<^verbatim>\<open>assert(clauses[root.id])\<close>.
\<close>

definition setSize :: "Row \<Rightarrow> Row" where
  "setSize r = r\<lparr>row_active := length (row_clauses r)\<rparr>"

definition root_ptr :: "'f Build \<Rightarrow> nat \<Rightarrow> nat option" where
  "root_ptr st root_id = (case b_clauses st root_id of None \<Rightarrow> None | Some p \<Rightarrow> p)"

definition Evaluator_new :: "'f flops \<Rightarrow> 'f Cache \<Rightarrow> (Opcode \<Rightarrow> 'f \<Rightarrow> nat option \<Rightarrow> nat option \<Rightarrow> 'f Clause)
    \<Rightarrow> nat set \<Rightarrow> nat \<Rightarrow> (nat \<Rightarrow> nat \<Rightarrow> 'f) \<Rightarrow> (nat \<Rightarrow> nat \<Rightarrow> 'f) \<Rightarrow> 'f Evaluator outcome" where
  "Evaluator_new F cache mk conn root_id m mi =
     obind (scan F cache mk conn) (\<lambda>(x, y, z, st).
       (case root_ptr st root_id of
          None \<Rightarrow> Fault AssertFailed
        | Some p \<Rightarrow> Ok \<lparr>ev_M = m, ev_Mi = mi, ev_data = b_data st, ev_X = x, ev_Y = y,
                        ev_Z = z, ev_rows = map setSize (b_rows st), ev_root = p\<rparr>))"

text \<open>
  Modelled from the spec: the constructor of \<^verbatim>\<open>Clause\<close> is not among the sources. A
  clause starts enabled (the spec's \<^verbatim>\<open>disabled\<close> is "set by pruning stack"), with
  "scratch buffers for a batch of size N"; the constant of a \<^verbatim>\<open>CONST\<close> clause, which no
  kernel computes, fills its array \<^verbatim>\<open>f\<close>, and its gradient and interval are the
  constant's.
\<close>

definition Clause_new :: "'f flops \<Rightarrow> 'f iops \<Rightarrow> nat \<Rightarrow> Opcode \<Rightarrow> 'f \<Rightarrow> nat option \<Rightarrow> nat option \<Rightarrow> 'f Clause" where
  "Clause_new F I n opc v pa pb =
     \<lparr>cl_op = opc, cl_value = v, cl_a = pa, cl_b = pb, cl_disabled = False,
      cl_result = \<lparr>res_f = replicate n v, res_dx = replicate n (flit F 0),
                   res_dy = replicate n (flit F 0), res_dz = replicate n (flit F 0),
                   res_i = i_make I v v\<rparr>\<rparr>"

section \<open>Exact arithmetic\<close>

text \<open>
  An instance of the float operations for concrete runs: the real numbers with exact
  arithmetic, which is what \<^verbatim>\<open>float\<close> computes whenever the operands and the result
  are representable (small integers and dyadic fractions). There is no NaN among
  them. \<^verbatim>\<open>std::fmod(a, b)\<close> is \<open>a - b * trunc (a / b)\<close>. The library functions keep their
  mathematical meaning on the domain where C's are defined.
\<close>

definition trunc :: "real \<Rightarrow> int" where
  "trunc q = (if 0 \<le> q then \<lfloor>q\<rfloor> else \<lceil>q\<rceil>)"

definition exact_flops :: "real flops" where
  "exact_flops =
     \<lparr>fadd = (+), fsub = (-), fmul = (*), fdiv = (/), fneg = uminus, flt = (<),
      flit = of_int, fisnan = (\<lambda>_. False), c_fmin = min, c_fmax = max,
      c_atan2 = (\<lambda>y x. undefined), c_pow = (powr),
      c_fmod = (\<lambda>a b. a - b * of_int (trunc (a / b))),
      c_sqrt = sqrt, c_fabs = abs, c_sin = sin, c_cos = cos, c_tan = tan,
      c_asin = arcsin, c_acos = arccos, c_atan = arctan, c_exp = exp\<rparr>"

text \<open>
  The matching instance of the interval operations: the textbook bounds that Boost
  computes for the operations below, without rounding. \<^verbatim>\<open>pow\<close> follows Boost's case
  analysis for a non-negative exponent, which it receives truncated to \<^verbatim>\<open>int\<close>. The
  operations whose Boost result is not a pair of reals (division by an interval around
  zero) or is built from tables of constants are left open.
\<close>

definition iv :: "real \<Rightarrow> real \<Rightarrow> real Interval" where
  "iv l u = \<lparr>lower = l, upper = u\<rparr>"

definition exact_pow :: "real Interval \<Rightarrow> real \<Rightarrow> real Interval" where
  "exact_pow x p =
     (let n = nat (trunc p)
      in if trunc p < 0 then undefined
         else if n = 0 then iv 1 1
         else if upper x < 0
         then (if odd n then iv (lower x ^ n) (upper x ^ n) else iv (upper x ^ n) (lower x ^ n))
         else if lower x < 0
         then (if odd n then iv (lower x ^ n) (upper x ^ n)
               else iv 0 (max (- lower x) (upper x) ^ n))
         else iv (lower x ^ n) (upper x ^ n))"

definition exact_mul :: "real Interval \<Rightarrow> real Interval \<Rightarrow> real Interval" where
  "exact_mul x y =
     iv (min (min (lower x * lower y) (lower x * upper y))
             (min (upper x * lower y) (upper x * upper y)))
        (max (max (lower x * lower y) (lower x * upper y))
             (max (upper x * lower y) (upper x * upper y)))"

definition exact_abs :: "real Interval \<Rightarrow> real Interval" where
  "exact_abs x =
     (if 0 \<le> lower x then x
      else if upper x \<le> 0 then iv (- upper x) (- lower x)
      else iv 0 (max (- lower x) (upper x)))"

definition exact_square :: "real Interval \<Rightarrow> real Interval" where
  "exact_square x = (let y = exact_abs x in iv (lower y * lower y) (upper y * upper y))"

definition exact_iops :: "real iops" where
  "exact_iops =
     \<lparr>i_make = iv, i_default = iv 0 0,
      i_add = (\<lambda>x y. iv (lower x + lower y) (upper x + upper y)),
      i_sub = (\<lambda>x y. iv (lower x - upper y) (upper x - lower y)),
      i_mul = exact_mul,
      i_div = (\<lambda>x y. undefined),
      i_min = (\<lambda>x y. iv (min (lower x) (lower y)) (min (upper x) (upper y))),
      i_max = (\<lambda>x y. iv (max (lower x) (lower y)) (max (upper x) (upper y))),
      i_atan2 = (\<lambda>x y. undefined),
      i_pow = exact_pow,
      i_nth_root = (\<lambda>x p. undefined),
      i_square = exact_square,
      i_sqrt = (\<lambda>x. undefined),
      i_neg = (\<lambda>x. iv (- upper x) (- lower x)),
      i_abs = exact_abs,
      i_sin = (\<lambda>x. undefined), i_cos = (\<lambda>x. undefined), i_tan = (\<lambda>x. undefined),
      i_asin = (\<lambda>x. undefined), i_acos = (\<lambda>x. undefined),
      i_atan = (\<lambda>x. iv (arctan (lower x)) (arctan (upper x))),
      i_exp = (\<lambda>x. iv (exp (lower x)) (exp (upper x))),
      i_scale = (\<lambda>c x. if c < 0 then iv (c * upper x) (c * lower x)
                        else iv (c * lower x) (c * upper x)),
      i_shift = (\<lambda>x c. iv (lower x + c) (upper x + c))\<rparr>"


section \<open>The properties as the specification words them\<close>

text \<open>
  The spec's reading of \<^verbatim>\<open>utilization()\<close>: "mean(active/size) across rows", the
  average over the rows of each row's own ratio.
\<close>

definition utilization_spec :: "'f Evaluator \<Rightarrow> real" where
  "utilization_spec e =
     (\<Sum>r\<leftarrow>ev_rows e. real (row_active r) / real (length (row_clauses r)))
       / real (length (ev_rows e))"

text \<open>
  The spec's "error returned or thrown to the caller": of the faults, only
  \<^verbatim>\<open>std::out_of_range\<close> is a C++ exception that reaches the caller. A failed \<^verbatim>\<open>assert\<close>
  calls \<^verbatim>\<open>abort()\<close>, and an access outside an array is undefined behaviour.
\<close>

fun thrown :: "fault \<Rightarrow> bool" where
  "thrown OutOfRange = True"
| "thrown AssertFailed = False"
| "thrown BadAccess = False"

section \<open>A worked example\<close>

text \<open>
  The tree \<^verbatim>\<open>min(-x, -y)\<close> in a cache: ids 1, 2, 3 for X, Y, Z, ids 4 and 5 for the two
  negations (rank 1), id 6 for the minimum (rank 2, the root). Id 0 is the null id of
  an absent operand. The set \<open>ex_conn\<close> is what is reachable from the root.
\<close>

definition ex_cache :: "real Cache" where
  "ex_cache =
     \<lparr>c_opcode = (\<lambda>t. if t = 1 then VAR_X else if t = 2 then VAR_Y else if t = 3 then VAR_Z
                     else if t = 4 then NEG else if t = 5 then NEG
                     else if t = 6 then MIN_op else INVALID),
      c_value = (\<lambda>t. 0),
      c_lhs = (\<lambda>t. if t = 4 then 1 else if t = 5 then 2 else if t = 6 then 4 else 0),
      c_rhs = (\<lambda>t. if t = 6 then 5 else 0),
      c_X = 1, c_Y = 2, c_Z = 3,
      c_left = [(VAR_X, 0, 1), (VAR_Y, 0, 2), (VAR_Z, 0, 3), (NEG, 1, 4), (NEG, 1, 5),
                (MIN_op, 2, 6)]\<rparr>"

definition ex_conn :: "nat set" where
  "ex_conn = {1, 2, 4, 5, 6}"

definition ident :: "nat \<Rightarrow> nat \<Rightarrow> real" where
  "ident c r = (if c = r then 1 else 0)"

text \<open>Clauses with result arrays of two elements.\<close>

definition ex_mk :: "Opcode \<Rightarrow> real \<Rightarrow> nat option \<Rightarrow> nat option \<Rightarrow> real Clause" where
  "ex_mk = Clause_new exact_flops exact_iops 2"

text \<open>
  The evaluator that the constructor builds from this cache: X, Y, Z in slots 0, 1, 2,
  the negations in slots 3 and 4 (the first row), the minimum in slot 5 (the second
  row and the root).
\<close>

definition ex_leaf :: "real \<Rightarrow> real \<Rightarrow> real \<Rightarrow> Opcode \<Rightarrow> real Clause" where
  "ex_leaf x y z opc =
     \<lparr>cl_op = opc, cl_value = 0, cl_a = None, cl_b = None, cl_disabled = False,
      cl_result = \<lparr>res_f = [0, 0], res_dx = [x, x], res_dy = [y, y], res_dz = [z, z],
                   res_i = iv 0 0\<rparr>\<rparr>"

definition ex_node :: "Opcode \<Rightarrow> nat option \<Rightarrow> nat option \<Rightarrow> real Clause" where
  "ex_node opc pa pb =
     \<lparr>cl_op = opc, cl_value = 0, cl_a = pa, cl_b = pb, cl_disabled = False,
      cl_result = \<lparr>res_f = [0, 0], res_dx = [0, 0], res_dy = [0, 0], res_dz = [0, 0],
                   res_i = iv 0 0\<rparr>\<rparr>"

definition ex_data :: "nat \<Rightarrow> real Clause" where
  "ex_data k =
     (if k = 0 then ex_leaf 1 0 0 VAR_X
      else if k = 1 then ex_leaf 0 1 0 VAR_Y
      else if k = 2 then ex_leaf 0 0 1 VAR_Z
      else if k = 3 then ex_node NEG (Some 0) None
      else if k = 4 then ex_node NEG (Some 1) None
      else if k = 5 then ex_node MIN_op (Some 3) (Some 4)
      else ex_node INVALID None None)"

definition ex_eval :: "real Evaluator" where
  "ex_eval =
     \<lparr>ev_M = ident, ev_Mi = ident, ev_data = ex_data, ev_X = 0, ev_Y = 1, ev_Z = 2,
      ev_rows = [\<lparr>row_clauses = [3, 4], row_active = 2, row_disabled = []\<rparr>,
                 \<lparr>row_clauses = [5], row_active = 1, row_disabled = []\<rparr>],
      ev_root = 5\<rparr>"

text \<open>
  The same evaluator with one of the two negations pruned: the first row has one
  active clause of two, the second one of one, and each row's stack holds the count
  it had before.
\<close>

definition ex_pruned :: "real Evaluator" where
  "ex_pruned =
     ex_eval\<lparr>ev_rows := [\<lparr>row_clauses = [3, 4], row_active = 1, row_disabled = [2]\<rparr>,
                          \<lparr>row_clauses = [5], row_active = 1, row_disabled = [1]\<rparr>]\<rparr>"

section \<open>Inputs of a batch\<close>

text \<open>
  Before a batch the caller stores the input points into the arrays \<^verbatim>\<open>f\<close> of the
  clauses X, Y and Z. \<open>set_inputs\<close> is the evaluator with these three arrays
  holding \<open>xs\<close>, \<open>ys\<close> and \<open>zs\<close>.
\<close>

definition set_inputs :: "'f Evaluator \<Rightarrow> 'f list \<Rightarrow> 'f list \<Rightarrow> 'f list \<Rightarrow> 'f Evaluator" where
  "set_inputs e xs ys zs =
     upd_result (upd_result (upd_result e (ev_X e) (\<lambda>r. r\<lparr>res_f := xs\<rparr>))
                   (ev_Y e) (\<lambda>r. r\<lparr>res_f := ys\<rparr>))
       (ev_Z e) (\<lambda>r. r\<lparr>res_f := zs\<rparr>)"

section \<open>Interval soundness, stated\<close>

text \<open>
  Membership of a point in an interval, and the value that a call returns, without the
  evaluator it leaves behind.
\<close>

definition in_iv :: "real \<Rightarrow> real Interval \<Rightarrow> bool" where
  "in_iv x a \<longleftrightarrow> lower a \<le> x \<and> x \<le> upper a"



text \<open>
  A second example: the tree \<^verbatim>\<open>mod(y, x)\<close>, X, Y, Z in slots 0, 1, 2 and the \<^verbatim>\<open>MOD\<close> clause
  in slot 3, the only row and the root.
\<close>

definition ex_mod :: "real Evaluator" where
  "ex_mod =
     \<lparr>ev_M = ident, ev_Mi = ident,
      ev_data = (\<lambda>k. if k = 0 then ex_leaf 1 0 0 VAR_X
                     else if k = 1 then ex_leaf 0 1 0 VAR_Y
                     else if k = 2 then ex_leaf 0 0 1 VAR_Z
                     else if k = 3 then ex_node MOD (Some 1) (Some 0)
                     else ex_node INVALID None None),
      ev_X = 0, ev_Y = 1, ev_Z = 2,
      ev_rows = [\<lparr>row_clauses = [3], row_active = 1, row_disabled = []\<rparr>],
      ev_root = 3\<rparr>"

section \<open>Operands\<close>

text \<open>The clauses that a clause points to as its operands \<^verbatim>\<open>a\<close> and \<^verbatim>\<open>b\<close>.\<close>

definition operands :: "'f Evaluator \<Rightarrow> nat \<Rightarrow> nat set" where
  "operands e c = set_option (cl_a (ev_data e c)) \<union> set_option (cl_b (ev_data e c))"

section \<open>Push followed by pop, stated\<close>





text \<open>
  Two outcomes that agree on what they return: one is \<^verbatim>\<open>Ok t\<close> exactly when the other is.
  A fault or a loop that never ends on one side is some outcome other than \<^verbatim>\<open>Ok\<close> on the
  other side.
\<close>

definition ok_eq :: "'a outcome \<Rightarrow> 'a outcome \<Rightarrow> bool" where
  "ok_eq m m' \<longleftrightarrow> (\<forall>t. m = Ok t \<longleftrightarrow> m' = Ok t)"

















definition ops_like :: "'f Evaluator \<Rightarrow> 'f Evaluator \<Rightarrow> bool" where
  "ops_like e s \<longleftrightarrow>
     (\<forall>k. cl_a (ev_data s k) = cl_a (ev_data e k) \<and> cl_b (ev_data s k) = cl_b (ev_data e k))"




section \<open>Binary32 arithmetic\<close>

text \<open>
  The C type \<^verbatim>\<open>float\<close> of the targets is IEEE 754 binary32: a sign, 24 bits of
  significand and an exponent from \<open>-126\<close> to \<open>127\<close>, with subnormal numbers below
  \<open>2\<^sup>-\<^sup>1\<^sup>2\<^sup>6\<close>. The finite floats are modelled as the reals they denote. \<open>rne\<close> rounds a
  real to the nearest integer, a tie to the even one. \<open>ulp32 x\<close> is the distance between
  the floats of the binade of \<open>x\<close>, and \<open>round32 x\<close> the float nearest to \<open>x\<close>, a tie to
  the one with an even significand: the rounding of every arithmetic operation in the
  default rounding mode, which the program never changes. A result of \<open>2\<^sup>1\<^sup>2\<^sup>8\<close> and more,
  where binary32 has an infinity, is outside the model. \<open>is_float32\<close>: a finite float.
\<close>

definition rne :: "real \<Rightarrow> int" where
  "rne y =
     (let n = \<lfloor>y\<rfloor>; d = y - of_int n
      in if d < 1 / 2 then n else if 1 / 2 < d then n + 1 else if even n then n else n + 1)"

definition expo32 :: "real \<Rightarrow> int" where
  "expo32 x = max \<lfloor>log 2 \<bar>x\<bar>\<rfloor> (- 126)"

definition ulp32 :: "real \<Rightarrow> real" where
  "ulp32 x = 2 powr (of_int (expo32 x) - 23)"

definition round32 :: "real \<Rightarrow> real" where
  "round32 x = (if x = 0 then 0 else ulp32 x * of_int (rne (x / ulp32 x)))"

definition is_float32 :: "real \<Rightarrow> bool" where
  "is_float32 x \<longleftrightarrow> round32 x = x \<and> \<bar>x\<bar> < 2 ^ 128"

text \<open>
  The float operations with this rounding: \<^verbatim>\<open>+\<close>, \<^verbatim>\<open>-\<close>, \<^verbatim>\<open>*\<close> and \<^verbatim>\<open>/\<close> round the exact
  result; \<^verbatim>\<open>std::fmod\<close>, negation, \<^verbatim>\<open>fabs\<close>, \<^verbatim>\<open>fmin\<close>, \<^verbatim>\<open>fmax\<close> and the comparison are
  exact on floats, as in the instance above. The other library functions are not used
  with this instance.
\<close>

definition binary32_flops :: "real flops" where
  "binary32_flops =
     exact_flops\<lparr>fadd := (\<lambda>x y. round32 (x + y)), fsub := (\<lambda>x y. round32 (x - y)),
                 fmul := (\<lambda>x y. round32 (x * y)), fdiv := (\<lambda>x y. round32 (x / y))\<rparr>"

section \<open>Binary64 arithmetic and utilization\<close>

text \<open>
  The C type \<^verbatim>\<open>double\<close> is IEEE 754 binary64: 53 bits of significand and an exponent
  from \<open>-1022\<close> to \<open>1023\<close>. \<open>round64 x\<close> is the double nearest to \<open>x\<close>, a tie to the one
  with an even significand, as \<open>round32\<close> is for \<^verbatim>\<open>float\<close>. A result of \<open>2\<^sup>1\<^sup>0\<^sup>2\<^sup>4\<close> and more is
  outside the model.
\<close>

definition expo64 :: "real \<Rightarrow> int" where
  "expo64 x = max \<lfloor>log 2 \<bar>x\<bar>\<rfloor> (- 1022)"

definition ulp64 :: "real \<Rightarrow> real" where
  "ulp64 x = 2 powr (of_int (expo64 x) - 52)"

definition round64 :: "real \<Rightarrow> real" where
  "round64 x = (if x = 0 then 0 else ulp64 x * of_int (rne (x / ulp64 x)))"

text \<open>
  \<^verbatim>\<open>double Evaluator::utilization() const\<close>. \<^verbatim>\<open>total\<close> and \<^verbatim>\<open>active\<close> are doubles that start
  at \<open>0\<close>; \<^verbatim>\<open>total += r.size()\<close> and \<^verbatim>\<open>active += r.active\<close> convert a \<^verbatim>\<open>size_t\<close> to
  \<^verbatim>\<open>double\<close> and add, each with a rounding (\<open>dsum\<close>). The quotient is a \<^verbatim>\<open>double\<close>
  division, rounded; it is NaN for \<^verbatim>\<open>0/0\<close> and infinite for a positive count over \<^verbatim>\<open>0\<close>.
\<close>

datatype dbl = Fin real | Inf | NaN

definition dsum :: "nat list \<Rightarrow> real" where
  "dsum ns = fold (\<lambda>n t. round64 (t + round64 (real n))) ns 0"

definition utilization :: "'f Evaluator \<Rightarrow> dbl" where
  "utilization e =
     (let total = dsum (map (\<lambda>r. length (row_clauses r)) (ev_rows e));
          active = dsum (map row_active (ev_rows e))
      in if total = 0 then (if active = 0 then NaN else Inf)
         else Fin (round64 (active / total)))"

section \<open>Facts about the kernel loops\<close>

lemma eval_loop_Ok:
  "eval_loop g out j count = Ok out' \<Longrightarrow>
   length out' = length out \<and>
   (\<forall>i. j \<le> i \<and> i < count \<longrightarrow> g i = Ok (out' ! i)) \<and>
   (\<forall>i. i < j \<or> count \<le> i \<longrightarrow> out' ! i = out ! i)"
proof (induction g out j count arbitrary: out' rule: eval_loop.induct)
  case (1 g out i count)
  show ?case
  proof (cases "i < count")
    case False
    with "1.prems" show ?thesis by (auto simp: eval_loop.simps)
  next
    case True
    from True "1.prems" obtain v where gv: "g i = Ok v" and len: "i < length out"
      and rec: "eval_loop g (out[i := v]) (Suc i) count = Ok out'"
      by (subst (asm) eval_loop.simps) (auto split: outcome.splits if_splits)
    from "1.IH"[OF True gv len rec]
    have ih: "length out' = length out"
      "\<And>k. Suc i \<le> k \<Longrightarrow> k < count \<Longrightarrow> g k = Ok (out' ! k)"
      "\<And>k. k < Suc i \<or> count \<le> k \<Longrightarrow> out' ! k = out[i := v] ! k"
      by auto
    have oi: "out' ! i = v" using ih(3)[of i] len by simp
    have a: "\<forall>k. i \<le> k \<and> k < count \<longrightarrow> g k = Ok (out' ! k)"
    proof (intro allI impI)
      fix k assume k: "i \<le> k \<and> k < count"
      show "g k = Ok (out' ! k)"
      proof (cases "k = i")
        case True then show ?thesis using gv oi by simp
      next
        case False then show ?thesis using ih(2)[of k] k by simp
      qed
    qed
    have b: "\<forall>k. k < i \<or> count \<le> k \<longrightarrow> out' ! k = out ! k"
    proof (intro allI impI)
      fix k assume k: "k < i \<or> count \<le> k"
      then have "k \<noteq> i" using True by auto
      moreover have "out' ! k = out[i := v] ! k" using ih(3)[of k] k by auto
      ultimately show "out' ! k = out ! k" by simp
    qed
    from ih(1) a b show ?thesis by simp
  qed
qed

lemma eval_loop_total:
  "count \<le> length out \<Longrightarrow> j \<le> count \<Longrightarrow> (\<And>i. j \<le> i \<Longrightarrow> i < count \<Longrightarrow> g i = Ok (h i)) \<Longrightarrow>
   eval_loop g out j count = Ok (take j out @ map h [j ..< count] @ drop count out)"
proof (induction g out j count rule: eval_loop.induct)
  case (1 g out i count)
  show ?case
  proof (cases "i < count")
    case False
    with "1.prems" show ?thesis by (simp add: eval_loop.simps)
  next
    case True
    have gv: "g i = Ok (h i)" using "1.prems" True by simp
    have len: "i < length out" using "1.prems" True by simp
    have "eval_loop g (out[i := h i]) (Suc i) count =
          Ok (take (Suc i) (out[i := h i]) @ map h [Suc i ..< count] @ drop count (out[i := h i]))"
      using "1.IH"[OF True gv len] "1.prems" True by simp
    moreover have "take (Suc i) (out[i := h i]) = take i out @ [h i]"
      using len by (simp add: take_Suc_conv_app_nth)
    moreover have "drop count (out[i := h i]) = drop count out"
      using True by simp
    moreover have "[i ..< count] = i # [Suc i ..< count]"
      using True by (simp add: upt_conv_Cons)
    ultimately show ?thesis
      using True gv len by (subst eval_loop.simps) simp
  qed
qed

lemma eval_loop_Ok_len:
  "eval_loop g out j count = Ok out' \<Longrightarrow> j < count \<Longrightarrow> count \<le> length out"
proof (induction g out j count arbitrary: out' rule: eval_loop.induct)
  case (1 g out i count)
  from "1.prems" obtain v where gv: "g i = Ok v" and len: "i < length out"
    and rec: "eval_loop g (out[i := v]) (Suc i) count = Ok out'"
    by (subst (asm) eval_loop.simps) (auto split: outcome.splits if_splits)
  show ?case
  proof (cases "Suc i < count")
    case True
    from "1.IH"[OF "1.prems"(2) gv len rec True] show ?thesis by simp
  next
    case False
    with "1.prems"(2) len show ?thesis by simp
  qed
qed

lemma grad_loop_Ok:
  "grad_loop g out j count = Ok out' \<Longrightarrow>
   ov out' = ov out \<and> length (odx out') = length (odx out) \<and>
   length (ody out') = length (ody out) \<and> length (odz out') = length (odz out) \<and>
   (\<forall>i. j \<le> i \<and> i < count \<longrightarrow> g i = Ok (odx out' ! i, ody out' ! i, odz out' ! i)) \<and>
   (\<forall>i. i < j \<or> count \<le> i \<longrightarrow>
        odx out' ! i = odx out ! i \<and> ody out' ! i = ody out ! i \<and> odz out' ! i = odz out ! i)"
proof (induction g out j count arbitrary: out' rule: grad_loop.induct)
  case (1 g out i count)
  show ?case
  proof (cases "i < count")
    case False
    with "1.prems" show ?thesis by (auto simp: grad_loop.simps)
  next
    case True
    let ?o = "\<lambda>x y z. out\<lparr>odx := (odx out)[i := x], ody := (ody out)[i := y], odz := (odz out)[i := z]\<rparr>"
    from True "1.prems" obtain x y z where gv: "g i = Ok (x, y, z)"
      and len: "i < length (odx out) \<and> i < length (ody out) \<and> i < length (odz out)"
      and rec: "grad_loop g (?o x y z) (Suc i) count = Ok out'"
      by (subst (asm) grad_loop.simps) (auto split: outcome.splits if_splits prod.splits)
    from "1.IH"[OF True gv refl refl len rec]
    have ih: "ov out' = ov out" "length (odx out') = length (odx out)"
      "length (ody out') = length (ody out)" "length (odz out') = length (odz out)"
      "\<And>k. Suc i \<le> k \<Longrightarrow> k < count \<Longrightarrow> g k = Ok (odx out' ! k, ody out' ! k, odz out' ! k)"
      "\<And>k. k < Suc i \<or> count \<le> k \<Longrightarrow>
         odx out' ! k = (odx out)[i := x] ! k \<and> ody out' ! k = (ody out)[i := y] ! k \<and>
         odz out' ! k = (odz out)[i := z] ! k"
      by auto
    have oi: "odx out' ! i = x" "ody out' ! i = y" "odz out' ! i = z"
      using ih(6)[of i] len by simp_all
    have a: "\<forall>k. i \<le> k \<and> k < count \<longrightarrow> g k = Ok (odx out' ! k, ody out' ! k, odz out' ! k)"
    proof (intro allI impI)
      fix k assume k: "i \<le> k \<and> k < count"
      show "g k = Ok (odx out' ! k, ody out' ! k, odz out' ! k)"
      proof (cases "k = i")
        case True then show ?thesis using gv oi by simp
      next
        case False then show ?thesis using ih(5)[of k] k by simp
      qed
    qed
    have b: "\<forall>k. k < i \<or> count \<le> k \<longrightarrow>
        odx out' ! k = odx out ! k \<and> ody out' ! k = ody out ! k \<and> odz out' ! k = odz out ! k"
    proof (intro allI impI)
      fix k assume k: "k < i \<or> count \<le> k"
      then have "k \<noteq> i" using True by auto
      moreover have "odx out' ! k = (odx out)[i := x] ! k \<and> ody out' ! k = (ody out)[i := y] ! k \<and>
         odz out' ! k = (odz out)[i := z] ! k" using ih(6)[of k] k by auto
      ultimately show "odx out' ! k = odx out ! k \<and> ody out' ! k = ody out ! k \<and> odz out' ! k = odz out ! k"
        by simp
    qed
    from ih(1-4) a b show ?thesis by simp
  qed
qed

lemma clause_Ok:
  assumes "clause F op a b out count = Ok out'" and "i < count"
  shows "elem F op (rd a i) (rd b i) = Ok (out' ! i)" and "length out' = length out"
    and "\<not> asserts op"
  using assms eval_loop_Ok[of "\<lambda>i. elem F op (rd a i) (rd b i)" out 0 count out']
  by (auto simp: clause_def split: if_splits)

lemma clause_d_Ok:
  assumes "clause_d F op a b out count = Ok out'" and "i < count"
  shows "elem F op (rd (pf a) i) (rd (pf b) i) = Ok (ov out' ! i)"
    and "delem F op (rd (pf a) i) (rd_grad a i) (rd (pf b) i) (rd_grad b i) (Ok (ov out' ! i))
         = Ok (odx out' ! i, ody out' ! i, odz out' ! i)"
proof -
  from assms(1) obtain v where v: "clause F op (pf a) (pf b) (ov out) count = Ok v"
    and na: "\<not> asserts op"
    and g: "grad_loop (\<lambda>i. delem F op (rd (pf a) i) (rd_grad a i) (rd (pf b) i) (rd_grad b i)
                               (rd (Some v) i)) (out\<lparr>ov := v\<rparr>) 0 count = Ok out'"
    by (cases "clause F op (pf a) (pf b) (ov out) count")
       (auto simp: clause_d_def split: if_splits)
  from grad_loop_Ok[OF g] assms(2) have ovv: "ov out' = v"
    and d: "delem F op (rd (pf a) i) (rd_grad a i) (rd (pf b) i) (rd_grad b i) (rd (Some v) i)
            = Ok (odx out' ! i, ody out' ! i, odz out' ! i)"
    by auto
  from clause_Ok[OF v assms(2)] have e: "elem F op (rd (pf a) i) (rd (pf b) i) = Ok (v ! i)"
    and l: "length v = length (ov out)" by auto
  have "i < length v"
  proof (rule ccontr)
    assume "\<not> i < length v"
    moreover have "count \<le> length (ov out)"
      using v na assms(2) eval_loop_Ok_len[of _ "ov out" 0 count v] by (simp add: clause_def)
    ultimately show False using l assms(2) by simp
  qed
  then have "rd (Some v) i = Ok (v ! i)" by simp
  with d e ovv show "elem F op (rd (pf a) i) (rd (pf b) i) = Ok (ov out' ! i)"
    and "delem F op (rd (pf a) i) (rd_grad a i) (rd (pf b) i) (rd_grad b i) (Ok (ov out' ! i))
         = Ok (odx out' ! i, ody out' ! i, odz out' ! i)" by simp_all
qed

section \<open>MIN and MAX gradients\<close>

text \<open>
  C3 (as the code has it). In the scalar derivative kernel, for every element \<open>i\<close> of
  the batch, a \<^verbatim>\<open>MIN\<close> clause takes the gradient of operand \<open>a\<close> when \<^verbatim>\<open>av[i] < bv[i]\<close> and
  the gradient of operand \<open>b\<close> otherwise; a \<^verbatim>\<open>MAX\<close> clause takes the gradient of operand
  \<open>b\<close> when \<^verbatim>\<open>av[i] < bv[i]\<close> and the gradient of operand \<open>a\<close> otherwise. When the two
  values are equal the comparison is false, so a tie goes to \<open>b\<close> for \<^verbatim>\<open>MIN\<close> and to \<open>a\<close>
  for \<^verbatim>\<open>MAX\<close>.
\<close>

theorem min_max_gradient:
  assumes run: "clause_d F op a b out count = Ok out'" and i: "i < count"
    and op: "op = MIN_op \<or> op = MAX_op"
  shows "\<exists>av bv. rd (pf a) i = Ok av \<and> rd (pf b) i = Ok bv \<and>
           (Ok (odx out' ! i), Ok (ody out' ! i), Ok (odz out' ! i)) =
             (if op = MIN_op
              then (if flt F av bv then rd_grad a i else rd_grad b i)
              else (if flt F av bv then rd_grad b i else rd_grad a i))"
proof -
  from clause_d_Ok[OF run i]
  have e: "elem F op (rd (pf a) i) (rd (pf b) i) = Ok (ov out' ! i)"
    and d: "delem F op (rd (pf a) i) (rd_grad a i) (rd (pf b) i) (rd_grad b i) (Ok (ov out' ! i))
            = Ok (odx out' ! i, ody out' ! i, odz out' ! i)" by auto
  from e op obtain av bv where av: "rd (pf a) i = Ok av" and bv: "rd (pf b) i = Ok bv"
    by (cases "rd (pf a) i"; cases "rd (pf b) i") (auto simp: bin_def)
  obtain ax ay az where ga: "rd_grad a i = (ax, ay, az)" by (cases "rd_grad a i") auto
  obtain bx by' bz where gb: "rd_grad b i = (bx, by', bz)" by (cases "rd_grad b i") auto
  have sel: "\<And>p q r x y z. obind p (\<lambda>x. obind q (\<lambda>y. obind r (\<lambda>z. Ok (x, y, z)))) = Ok (x, y, z)
      \<Longrightarrow> (p, q, r) = (Ok x, Ok y, Ok z)"
    subgoal for p q r x y z by (cases p; cases q; cases r) auto
    done
  show ?thesis
    using op d av bv ga gb
    by (auto simp: dest!: sel split: if_splits)
qed

text \<open>
  A \<^verbatim>\<open>MIN\<close> clause on one element where both operands have the value 1: the gradient
  stored is that of \<open>b\<close>, \<open>(40, 50, 60)\<close>.
\<close>

theorem min_max_gradient_witness:
  "clause_d exact_flops MIN_op
     \<lparr>pf = Some [1], pdx = Some [10], pdy = Some [20], pdz = Some [30]\<rparr>
     \<lparr>pf = Some [1], pdx = Some [40], pdy = Some [50], pdz = Some [60]\<rparr>
     \<lparr>ov = [0], odx = [0], ody = [0], odz = [0]\<rparr> 1
   = Ok \<lparr>ov = [1], odx = [40], ody = [50], odz = [60]\<rparr>
   \<and> (0::nat) < 1 \<and> (MIN_op = MIN_op \<or> MIN_op = MAX_op)
   \<and> (\<exists>av bv. rd (Some [1::real]) 0 = Ok av \<and> rd (Some [1::real]) 0 = Ok bv \<and>
         (Ok (40::real), Ok (50::real), Ok (60::real)) =
           (if av < bv then (Ok 10, Ok 20, Ok 30) else (Ok 40, Ok 50, Ok 60)))"
proof -
  let ?a = "\<lparr>pf = Some [1::real], pdx = Some [10], pdy = Some [20], pdz = Some [30]\<rparr>"
  let ?b = "\<lparr>pf = Some [1::real], pdx = Some [40], pdy = Some [50], pdz = Some [60]\<rparr>"
  have run: "clause_d exact_flops MIN_op ?a ?b \<lparr>ov = [0], odx = [0], ody = [0], odz = [0]\<rparr> 1
      = Ok \<lparr>ov = [1], odx = [40], ody = [50], odz = [60]\<rparr>"
    by (simp add: clause_d_def clause_def eval_loop.simps grad_loop.simps rd_grad_def bin_def
        exact_flops_def)
  have i: "(0::nat) < 1" by simp
  have op: "MIN_op = MIN_op \<or> MIN_op = MAX_op" by simp
  from min_max_gradient[OF run i op] run show ?thesis
    by (simp add: rd_grad_def exact_flops_def)
qed

text \<open>
  The same two operands under \<^verbatim>\<open>MAX\<close>: the values tie at 1 and the gradient stored is
  that of \<open>a\<close>, \<open>(10, 20, 30)\<close>, not that of \<open>b\<close>, \<open>(40, 50, 60)\<close>.
\<close>

theorem max_tie_counterexample:
  "clause_d exact_flops MAX_op
     \<lparr>pf = Some [1], pdx = Some [10], pdy = Some [20], pdz = Some [30]\<rparr>
     \<lparr>pf = Some [1], pdx = Some [40], pdy = Some [50], pdz = Some [60]\<rparr>
     \<lparr>ov = [0], odx = [0], ody = [0], odz = [0]\<rparr> 1
   = Ok \<lparr>ov = [1], odx = [10], ody = [20], odz = [30]\<rparr>"
  by (simp add: clause_d_def clause_def eval_loop.simps grad_loop.simps rd_grad_def bin_def
      exact_flops_def)

section \<open>The worked example is what the constructor builds\<close>

lemma ex_build: "Evaluator_new exact_flops ex_cache ex_mk ex_conn 6 ident ident = Ok ex_eval"
  apply (simp add: Evaluator_new_def scan_def newClause_def ex_cache_def ex_conn_def scan_step_def
     add_to_row_def empty_Row_def setSize_def root_ptr_def ex_eval_def ex_mk_def Clause_new_def deriv_def
     exact_flops_def exact_iops_def)
  apply (rule ext)
  apply (simp add: ex_data_def ex_leaf_def ex_node_def numeral_2_eq_2 iv_def)
  done

section \<open>The number of 8-lane chunks\<close>

text \<open>
  C9. The vectorized paths compute the number of chunks as \<^verbatim>\<open>(count - 1)/8 + 1\<close> in
  \<^verbatim>\<open>size_t\<close>. For a batch of size 0 the subtraction wraps around to \<open>2^64 - 1\<close> and the
  number of chunks is \<open>2^61\<close>, not the 0 of \<open>\<lceil>0/8\<rceil>\<close>. (\<^verbatim>\<open>applyTransform\<close> computes
  its bound as \<^verbatim>\<open>(count + 7) / 8\<close>, which is 0 for 0.)
\<close>

theorem vec_count_zero: "vec_count 0 = 2 ^ 61 \<and> unat (vec_count 0) = 2305843009213693952"
  by (simp add: vec_count_def)

text \<open>
  For every other batch size the two agree: the number of chunks is \<open>\<lceil>n/8\<rceil>\<close>.
\<close>

lemma vec_count_pos:
  assumes "n \<noteq> 0"
  shows "unat (vec_count n) = (unat n + 7) div 8"
proof -
  have n: "0 < unat n" using assms by (simp add: unat_gt_0)
  have a: "unat (n - 1) = unat n - 1" using assms by (simp add: unat_minus_one)
  have b: "unat ((n - 1) div 8) = (unat n - 1) div 8" by (simp add: unat_div a)
  have lt: "unat n < 2 ^ 64" using unsigned_less[of n, where ?'a = nat] by simp
  have c: "unat ((n - 1) div 8 + 1) = (unat n - 1) div 8 + 1"
    using lt b by (simp add: unat_word_ariths)
  show ?thesis using c n by (simp add: vec_count_def) 
qed

section \<open>POW and NTH_ROOT on intervals\<close>

text \<open>
  C4 (as the code has it). Interval evaluation of a \<^verbatim>\<open>POW\<close> or \<^verbatim>\<open>NTH_ROOT\<close> clause
  never raises an error. It returns Boost's \<^verbatim>\<open>pow\<close> or \<^verbatim>\<open>nth_root\<close> of the interval of
  \<open>a\<close> and the lower endpoint of the interval of \<open>b\<close>: two exponent intervals with the
  same lower endpoint give the same result, whatever their upper endpoints.
\<close>

theorem pow_uses_lower:
  assumes "lower b = lower b'"
  shows "clause_i F I POW a b = Ok (i_pow I a (lower b))
       \<and> clause_i F I POW a b' = clause_i F I POW a b
       \<and> clause_i F I NTH_ROOT a b = Ok (i_nth_root I a (lower b))
       \<and> clause_i F I NTH_ROOT a b' = clause_i F I NTH_ROOT a b"
  using assms by simp

text \<open>
  The exponent interval \<open>[1, 2]\<close> against the degenerate \<open>[1, 1]\<close>, for the base
  \<open>[2, 2]\<close>.
\<close>

theorem pow_uses_lower_witness:
  "lower \<lparr>lower = 1::real, upper = 1\<rparr> = lower \<lparr>lower = 1::real, upper = 2\<rparr>
   \<and> clause_i exact_flops exact_iops POW \<lparr>lower = 2, upper = 2\<rparr> \<lparr>lower = 1, upper = 2\<rparr>
       = clause_i exact_flops exact_iops POW \<lparr>lower = 2, upper = 2\<rparr> \<lparr>lower = 1, upper = 1\<rparr>"
  using pow_uses_lower[of "\<lparr>lower = 1::real, upper = 1\<rparr>" "\<lparr>lower = 1::real, upper = 2\<rparr>"
      exact_flops exact_iops "\<lparr>lower = 2, upper = 2\<rparr>"]
  by simp

text \<open>
  With the base \<open>[2, 2]\<close> and the exponent interval \<open>[1, 2]\<close>, whose endpoints differ,
  the kernel returns \<open>[2, 2]\<close>, the power for the exponent 1 alone; no error is
  raised.
\<close>

theorem pow_counterexample:
  "clause_i exact_flops exact_iops POW \<lparr>lower = 2, upper = 2\<rparr> \<lparr>lower = 1, upper = 2\<rparr>
     = Ok \<lparr>lower = 2, upper = 2\<rparr>"
  by (simp add: exact_iops_def exact_pow_def trunc_def iv_def)

section \<open>A missing root\<close>

text \<open>
  C5 (as the code has it). Whenever the scan has gone through and the map \<^verbatim>\<open>clauses\<close>
  holds no clause for the root id, construction fails the assertion
  \<^verbatim>\<open>assert(clauses[root.id])\<close>: the process aborts there.
\<close>

theorem root_missing_asserts:
  assumes "scan F cache mk conn = Ok (x, y, z, st)" and "root_ptr st root_id = None"
  shows "Evaluator_new F cache mk conn root_id m mi = Fault AssertFailed"
  using assms by (simp add: Evaluator_new_def)

text \<open>
  The example cache with the null id 0 as root: the scan succeeds and the assertion
  fails.
\<close>

theorem root_missing_asserts_witness:
  "\<exists>x y z st. scan exact_flops ex_cache ex_mk ex_conn = Ok (x, y, z, st)
       \<and> root_ptr st 0 = None
       \<and> Evaluator_new exact_flops ex_cache ex_mk ex_conn 0 ident ident = Fault AssertFailed"
proof -
  have "\<exists>x y z st. scan exact_flops ex_cache ex_mk ex_conn = Ok (x, y, z, st) \<and> root_ptr st 0 = None"
    by (simp add: scan_def newClause_def ex_cache_def ex_conn_def scan_step_def
     add_to_row_def empty_Row_def root_ptr_def)
  then obtain x y z st where s: "scan exact_flops ex_cache ex_mk ex_conn = Ok (x, y, z, st)"
    and r: "root_ptr st 0 = None" by blast
  from root_missing_asserts[OF s r, of ident ident] s r show ?thesis by blast
qed

text \<open>
  That failure is an abort, not an error returned or thrown to the caller: the only
  exception the constructor can throw is the \<^verbatim>\<open>std::out_of_range\<close> of \<^verbatim>\<open>clauses.at\<close>.
\<close>

theorem root_missing_counterexample:
  "Evaluator_new exact_flops ex_cache ex_mk ex_conn 0 ident ident = Fault AssertFailed
   \<and> \<not> thrown AssertFailed"
  by (simp add: Evaluator_new_def scan_def newClause_def ex_cache_def ex_conn_def scan_step_def
     add_to_row_def empty_Row_def setSize_def root_ptr_def ex_mk_def Clause_new_def deriv_def
     exact_flops_def exact_iops_def)

section \<open>DUMMY opcodes\<close>

lemma grad_loop_total:
  "count \<le> length (odx out) \<Longrightarrow> count \<le> length (ody out) \<Longrightarrow> count \<le> length (odz out) \<Longrightarrow>
   j \<le> count \<Longrightarrow> (\<And>i. j \<le> i \<Longrightarrow> i < count \<Longrightarrow> g i = Ok (hx i, hy i, hz i)) \<Longrightarrow>
   grad_loop g out j count =
     Ok (out\<lparr>odx := take j (odx out) @ map hx [j ..< count] @ drop count (odx out),
             ody := take j (ody out) @ map hy [j ..< count] @ drop count (ody out),
             odz := take j (odz out) @ map hz [j ..< count] @ drop count (odz out)\<rparr>)"
proof (induction g out j count rule: grad_loop.induct)
  case (1 g out i count)
  show ?case
  proof (cases "i < count")
    case False
    with "1.prems" show ?thesis by (simp add: grad_loop.simps)
  next
    case True
    let ?o = "out\<lparr>odx := (odx out)[i := hx i], ody := (ody out)[i := hy i], odz := (odz out)[i := hz i]\<rparr>"
    have gv: "g i = Ok (hx i, hy i, hz i)" using "1.prems" True by simp
    have len: "i < length (odx out) \<and> i < length (ody out) \<and> i < length (odz out)"
      using "1.prems" True by simp
    have rec: "grad_loop g ?o (Suc i) count =
          Ok (?o\<lparr>odx := take (Suc i) (odx ?o) @ map hx [Suc i ..< count] @ drop count (odx ?o),
                  ody := take (Suc i) (ody ?o) @ map hy [Suc i ..< count] @ drop count (ody ?o),
                  odz := take (Suc i) (odz ?o) @ map hz [Suc i ..< count] @ drop count (odz ?o)\<rparr>)"
      using "1.IH"[OF True gv refl refl len] "1.prems" True by simp
    have t: "\<And>xs v. i < length xs \<Longrightarrow> take (Suc i) (xs[i := v]) = take i xs @ [v]"
      by (simp add: take_Suc_conv_app_nth)
    have d: "\<And>xs v. drop count (xs[i := v]) = drop count (xs :: 'a list)"
      using True by simp
    have u: "[i ..< count] = i # [Suc i ..< count]"
      using True by (simp add: upt_conv_Cons)
    show ?thesis
      using True gv len rec by (subst grad_loop.simps) (simp add: t d u)
  qed
qed

lemma map_nth_take: "n \<le> length xs \<Longrightarrow> map ((!) xs) [0 ..< n] = take n xs"
  by (simp add: list_eq_iff_nth_eq)

lemma clause_copy:
  assumes "count \<le> length xs" and "count \<le> length out"
  shows "clause F DUMMY_A (Some xs) b out count = Ok (take count xs @ drop count out)"
    and "clause F DUMMY_B a (Some xs) out count = Ok (take count xs @ drop count out)"
proof -
  have "eval_loop (\<lambda>i. rd (Some xs) i) out 0 count
        = Ok (take 0 out @ map ((!) xs) [0 ..< count] @ drop count out)"
    using assms by (intro eval_loop_total) auto
  then show "clause F DUMMY_A (Some xs) b out count = Ok (take count xs @ drop count out)"
    and "clause F DUMMY_B a (Some xs) out count = Ok (take count xs @ drop count out)"
    using assms by (simp_all add: clause_def map_nth_take)
qed

lemma clause_d_copy:
  assumes "count \<le> length xs" "count \<le> length gx" "count \<le> length gy" "count \<le> length gz"
    and "count \<le> length (ov out)" "count \<le> length (odx out)" "count \<le> length (ody out)"
        "count \<le> length (odz out)"
    and p: "p = \<lparr>pf = Some xs, pdx = Some gx, pdy = Some gy, pdz = Some gz\<rparr>"
  shows "clause_d F DUMMY_A p q out count =
           Ok \<lparr>ov = take count xs @ drop count (ov out), odx = take count gx @ drop count (odx out),
               ody = take count gy @ drop count (ody out), odz = take count gz @ drop count (odz out)\<rparr>"
    and "clause_d F DUMMY_B q p out count =
           Ok \<lparr>ov = take count xs @ drop count (ov out), odx = take count gx @ drop count (odx out),
               ody = take count gy @ drop count (ody out), odz = take count gz @ drop count (odz out)\<rparr>"
proof -
  let ?v = "take count xs @ drop count (ov out)"
  let ?o = "out\<lparr>ov := ?v\<rparr>"
  have g: "\<And>g. (\<And>i. i < count \<Longrightarrow> g i = Ok (gx ! i, gy ! i, gz ! i)) \<Longrightarrow>
     grad_loop g ?o 0 count =
       Ok \<lparr>ov = ?v, odx = take count gx @ drop count (odx out),
           ody = take count gy @ drop count (ody out), odz = take count gz @ drop count (odz out)\<rparr>"
  proof -
    fix g :: "nat \<Rightarrow> ('a \<times> 'a \<times> 'a) outcome"
    assume "\<And>i. i < count \<Longrightarrow> g i = Ok (gx ! i, gy ! i, gz ! i)"
    then have "grad_loop g ?o 0 count =
     Ok (?o\<lparr>odx := take 0 (odx ?o) @ map ((!) gx) [0 ..< count] @ drop count (odx ?o),
             ody := take 0 (ody ?o) @ map ((!) gy) [0 ..< count] @ drop count (ody ?o),
             odz := take 0 (odz ?o) @ map ((!) gz) [0 ..< count] @ drop count (odz ?o)\<rparr>)"
      using assms by (intro grad_loop_total) auto
    then show "grad_loop g ?o 0 count =
       Ok \<lparr>ov = ?v, odx = take count gx @ drop count (odx out),
           ody = take count gy @ drop count (ody out), odz = take count gz @ drop count (odz out)\<rparr>"
      using assms by (simp add: map_nth_take)
  qed
  have ra: "\<And>i. i < count \<Longrightarrow> rd_grad p i = (Ok (gx ! i), Ok (gy ! i), Ok (gz ! i))"
    using assms by (simp add: rd_grad_def)
  have AB: "\<And>i. i < count \<Longrightarrow>
      map3 (\<lambda>p q. p) (rd_grad p i) (rd_grad q i) = Ok (gx ! i, gy ! i, gz ! i) \<and>
      map3 (\<lambda>p q. q) (rd_grad q i) (rd_grad p i) = Ok (gx ! i, gy ! i, gz ! i)"
    subgoal for i using ra[of i] by (cases "rd_grad q i") simp
    done
  show "clause_d F DUMMY_A p q out count =
           Ok \<lparr>ov = ?v, odx = take count gx @ drop count (odx out),
               ody = take count gy @ drop count (ody out), odz = take count gz @ drop count (odz out)\<rparr>"
    using clause_copy(1)[of count xs "ov out" F "pf q"] assms(1,5) p g AB
    by (simp add: clause_d_def)
  show "clause_d F DUMMY_B q p out count =
           Ok \<lparr>ov = ?v, odx = take count gx @ drop count (odx out),
               ody = take count gy @ drop count (ody out), odz = take count gz @ drop count (odz out)\<rparr>"
    using clause_copy(2)[of count xs "ov out" F "pf q"] assms(1,5) p g AB
    by (simp add: clause_d_def)
qed

text \<open>
  C7. The opcode that \<^verbatim>\<open>getOpcode\<close> reports for a clause is \<^verbatim>\<open>DUMMY_B\<close> when operand
  \<open>a\<close> exists and is disabled; otherwise \<^verbatim>\<open>DUMMY_A\<close> when operand \<open>b\<close> exists and is
  disabled; otherwise the clause's own opcode. The scalar kernels for \<^verbatim>\<open>DUMMY_A\<close> and
  \<^verbatim>\<open>DUMMY_B\<close> copy the first \<open>count\<close> elements of the named operand's value array, and
  of its \<^verbatim>\<open>dx\<close>, \<^verbatim>\<open>dy\<close>, \<^verbatim>\<open>dz\<close> arrays, unchanged into the clause's result arrays (the
  other operand may even be null).
\<close>

theorem dummy_opcode_and_copy:
  assumes "count \<le> length xs" "count \<le> length gx" "count \<le> length gy" "count \<le> length gz"
    and "count \<le> length (ov out)" "count \<le> length (odx out)" "count \<le> length (ody out)"
        "count \<le> length (odz out)"
    and p: "p = \<lparr>pf = Some xs, pdx = Some gx, pdy = Some gy, pdz = Some gz\<rparr>"
    and copied: "copied = \<lparr>ov = take count xs @ drop count (ov out),
                            odx = take count gx @ drop count (odx out),
                            ody = take count gy @ drop count (ody out),
                            odz = take count gz @ drop count (odz out)\<rparr>"
  shows "(cl_a (ev_data e c) = Some ka \<and> cl_disabled (ev_data e ka) \<longrightarrow> getOpcode e c = DUMMY_B)
       \<and> (\<not> (\<exists>k. cl_a (ev_data e c) = Some k \<and> cl_disabled (ev_data e k))
            \<and> cl_b (ev_data e c) = Some kb \<and> cl_disabled (ev_data e kb) \<longrightarrow> getOpcode e c = DUMMY_A)
       \<and> (\<not> (\<exists>k. cl_a (ev_data e c) = Some k \<and> cl_disabled (ev_data e k))
            \<and> \<not> (\<exists>k. cl_b (ev_data e c) = Some k \<and> cl_disabled (ev_data e k))
            \<longrightarrow> getOpcode e c = cl_op (ev_data e c))
       \<and> clause F DUMMY_A (Some xs) (pf q) (ov out) count = Ok (ov copied)
       \<and> clause F DUMMY_B (pf q) (Some xs) (ov out) count = Ok (ov copied)
       \<and> clause_d F DUMMY_A p q out count = Ok copied
       \<and> clause_d F DUMMY_B q p out count = Ok copied"
proof -
  have "clause_d F DUMMY_A p q out count = Ok copied"
    and "clause_d F DUMMY_B q p out count = Ok copied"
    using clause_d_copy[OF assms(1-9)] copied by simp_all
  moreover have "clause F DUMMY_A (Some xs) (pf q) (ov out) count = Ok (ov copied)"
    and "clause F DUMMY_B (pf q) (Some xs) (ov out) count = Ok (ov copied)"
    using clause_copy[OF assms(1) assms(5)] copied by simp_all
  moreover have "cl_a (ev_data e c) = Some ka \<and> cl_disabled (ev_data e ka) \<longrightarrow> getOpcode e c = DUMMY_B"
    by (simp add: getOpcode_def)
  moreover have "\<not> (\<exists>k. cl_a (ev_data e c) = Some k \<and> cl_disabled (ev_data e k))
            \<and> cl_b (ev_data e c) = Some kb \<and> cl_disabled (ev_data e kb) \<longrightarrow> getOpcode e c = DUMMY_A"
    by (auto simp: getOpcode_def)
  moreover have "\<not> (\<exists>k. cl_a (ev_data e c) = Some k \<and> cl_disabled (ev_data e k))
            \<and> \<not> (\<exists>k. cl_b (ev_data e c) = Some k \<and> cl_disabled (ev_data e k))
            \<longrightarrow> getOpcode e c = cl_op (ev_data e c)"
    by (auto simp: getOpcode_def)
  ultimately show ?thesis by blast
qed

text \<open>
  The root of the example with its first operand disabled, with its second operand
  disabled and with neither; and a copy of two elements into arrays of three.
\<close>

theorem dummy_opcode_and_copy_witness:
  "cl_a (ev_data (disable ex_eval 3) 5) = Some 3 \<and> cl_disabled (ev_data (disable ex_eval 3) 3)
   \<and> getOpcode (disable ex_eval 3) 5 = DUMMY_B
   \<and> cl_b (ev_data (disable ex_eval 4) 5) = Some 4 \<and> cl_disabled (ev_data (disable ex_eval 4) 4)
   \<and> getOpcode (disable ex_eval 4) 5 = DUMMY_A
   \<and> getOpcode ex_eval 5 = MIN_op
   \<and> clause_d exact_flops DUMMY_A
        \<lparr>pf = Some [7, 8], pdx = Some [1, 2], pdy = Some [3, 4], pdz = Some [5, 6]\<rparr>
        \<lparr>pf = None, pdx = None, pdy = None, pdz = None\<rparr>
        \<lparr>ov = [0, 0, 9], odx = [0, 0, 9], ody = [0, 0, 9], odz = [0, 0, 9]\<rparr> 2
      = Ok \<lparr>ov = [7, 8, 9], odx = [1, 2, 9], ody = [3, 4, 9], odz = [5, 6, 9]\<rparr>
   \<and> clause_d exact_flops DUMMY_B
        \<lparr>pf = None, pdx = None, pdy = None, pdz = None\<rparr>
        \<lparr>pf = Some [7, 8], pdx = Some [1, 2], pdy = Some [3, 4], pdz = Some [5, 6]\<rparr>
        \<lparr>ov = [0, 0, 9], odx = [0, 0, 9], ody = [0, 0, 9], odz = [0, 0, 9]\<rparr> 2
      = Ok \<lparr>ov = [7, 8, 9], odx = [1, 2, 9], ody = [3, 4, 9], odz = [5, 6, 9]\<rparr>"
proof -
  let ?p = "\<lparr>pf = Some [7, 8 :: real], pdx = Some [1, 2], pdy = Some [3, 4], pdz = Some [5, 6]\<rparr>"
  let ?q = "\<lparr>pf = None :: real buf, pdx = None, pdy = None, pdz = None\<rparr>"
  let ?out = "\<lparr>ov = [0, 0, 9 :: real], odx = [0, 0, 9], ody = [0, 0, 9], odz = [0, 0, 9]\<rparr>"
  let ?c = "\<lparr>ov = take 2 [7, 8 :: real] @ drop 2 (ov ?out), odx = take 2 [1, 2] @ drop 2 (odx ?out),
             ody = take 2 [3, 4] @ drop 2 (ody ?out), odz = take 2 [5, 6] @ drop 2 (odz ?out)\<rparr>"
  have l: "(2::nat) \<le> length [7, 8 :: real]" "(2::nat) \<le> length [1, 2 :: real]"
    "(2::nat) \<le> length [3, 4 :: real]" "(2::nat) \<le> length [5, 6 :: real]"
    "(2::nat) \<le> length (ov ?out)" "(2::nat) \<le> length (odx ?out)"
    "(2::nat) \<le> length (ody ?out)" "(2::nat) \<le> length (odz ?out)" by simp_all
  note t = dummy_opcode_and_copy[OF l refl refl, where q = ?q and F = exact_flops]
  from t[of "disable ex_eval 3" 5 3 4] t[of "disable ex_eval 4" 5 3 4] t[of ex_eval 5 3 4]
  show ?thesis
    by (simp add: disable_def set_disabled_def ex_eval_def ex_data_def ex_node_def ex_leaf_def)
qed

section \<open>The range of MOD\<close>

lemma rne_int [simp]: "rne (of_int n) = n"
  by (simp add: rne_def)

lemma rne_near: "\<bar>y - of_int n\<bar> < 1 / 2 \<Longrightarrow> rne y = n"
proof -
  assume a: "\<bar>y - of_int n\<bar> < 1 / 2"
  show ?thesis
  proof (cases "of_int n \<le> y")
    case True
    then have "\<lfloor>y\<rfloor> = n" using a by (intro floor_unique) auto
    then show ?thesis using a True by (simp add: rne_def Let_def)
  next
    case False
    then have f: "\<lfloor>y\<rfloor> = n - 1" using a by (intro floor_unique) auto
    then show ?thesis using a False by (simp add: rne_def Let_def)
  qed
qed

lemma rne_range: "\<lfloor>y\<rfloor> \<le> rne y \<and> rne y \<le> \<lfloor>y\<rfloor> + 1"
  by (simp add: rne_def Let_def)

lemma rne_mono:
  assumes "y \<le> y'"
  shows "rne y \<le> rne y'"
proof (cases "\<lfloor>y\<rfloor> = \<lfloor>y'\<rfloor>")
  case True
  have "y - of_int \<lfloor>y\<rfloor> \<le> y' - of_int \<lfloor>y\<rfloor>" using assms by simp
  then show ?thesis using True by (auto simp: rne_def Let_def)
next
  case False
  have "\<lfloor>y\<rfloor> \<le> \<lfloor>y'\<rfloor>" using assms by (rule floor_mono)
  with False have "\<lfloor>y\<rfloor> + 1 \<le> \<lfloor>y'\<rfloor>" by simp
  with rne_range[of y] rne_range[of y'] show ?thesis by linarith
qed

lemma rne_le: "y \<le> of_int n \<Longrightarrow> rne y \<le> n"
  using rne_mono[of y "of_int n"] by simp

lemma rne_ge: "of_int n \<le> y \<Longrightarrow> n \<le> rne y"
  using rne_mono[of "of_int n" y] by simp

lemma ulp32_pos: "0 < ulp32 x"
  by (simp add: ulp32_def)

lemma expo32_mono: "0 < x \<Longrightarrow> x \<le> y \<Longrightarrow> expo32 x \<le> expo32 y"
proof -
  assume "0 < x" "x \<le> y"
  then have "log 2 \<bar>x\<bar> \<le> log 2 \<bar>y\<bar>" by simp
  then have "\<lfloor>log 2 \<bar>x\<bar>\<rfloor> \<le> \<lfloor>log 2 \<bar>y\<bar>\<rfloor>" by (rule floor_mono)
  then show ?thesis by (simp add: expo32_def)
qed

lemma expo32_upper: "0 < x \<Longrightarrow> x < 2 powr (of_int (expo32 x) + 1)"
proof -
  assume x: "0 < x"
  have "log 2 x < of_int \<lfloor>log 2 x\<rfloor> + 1" by linarith
  also have "\<dots> \<le> of_int (expo32 x) + 1" using x by (simp add: expo32_def)
  finally have "log 2 x < of_int (expo32 x) + 1" .
  then show ?thesis using x by (simp add: log_less_iff)
qed

lemma expo32_lower: "0 < x \<Longrightarrow> - 126 < expo32 x \<Longrightarrow> 2 powr (of_int (expo32 x)) \<le> x"
proof -
  assume x: "0 < x" and e: "- 126 < expo32 x"
  then have "expo32 x = \<lfloor>log 2 x\<rfloor>" by (simp add: expo32_def max_def split: if_splits)
  then have "of_int (expo32 x) \<le> log 2 x" by simp
  then show ?thesis using x by (simp add: le_log_iff)
qed

lemma round32_upper:
  assumes x: "0 < x"
  shows "round32 x \<le> 2 powr (of_int (expo32 x) + 1)"
proof -
  have "x / ulp32 x < 2 powr (of_int (expo32 x) + 1) / ulp32 x"
    using expo32_upper[OF x] ulp32_pos[of x] by (simp add: divide_strict_right_mono)
  also have "2 powr (of_int (expo32 x) + 1) / ulp32 x = 2 powr 24"
    by (simp add: ulp32_def powr_diff [symmetric])
  also have "(2::real) powr 24 = of_int (2 ^ 24)" by simp
  finally have "rne (x / ulp32 x) \<le> 2 ^ 24" by (intro rne_le) simp
  then have "of_int (rne (x / ulp32 x)) \<le> (2::real) powr 24" by simp
  then have "ulp32 x * of_int (rne (x / ulp32 x)) \<le> ulp32 x * 2 powr 24"
    using ulp32_pos[of x] by (simp only: mult_le_cancel_left_pos)
  also have "ulp32 x * 2 powr 24 = 2 powr (of_int (expo32 x) + 1)"
    by (simp only: ulp32_def powr_add [symmetric]) (simp add: add.commute)
  finally show ?thesis using x by (simp add: round32_def)
qed

lemma round32_lower:
  assumes x: "0 < x" and e: "- 126 < expo32 x"
  shows "2 powr (of_int (expo32 x)) \<le> round32 x"
proof -
  have "2 powr (of_int (expo32 x)) / ulp32 x \<le> x / ulp32 x"
    using expo32_lower[OF x e] ulp32_pos[of x] by (simp add: divide_right_mono)
  moreover have "2 powr (of_int (expo32 x)) / ulp32 x = 2 powr 23"
    by (simp add: ulp32_def powr_diff [symmetric])
  moreover have "(2::real) powr 23 = of_int (2 ^ 23)" by simp
  ultimately have "2 ^ 23 \<le> rne (x / ulp32 x)" by (intro rne_ge) simp
  then have "(2::real) powr 23 \<le> of_int (rne (x / ulp32 x))" by simp
  then have "ulp32 x * 2 powr 23 \<le> ulp32 x * of_int (rne (x / ulp32 x))"
    using ulp32_pos[of x] by (simp only: mult_le_cancel_left_pos)
  moreover have "ulp32 x * 2 powr 23 = 2 powr (of_int (expo32 x))"
    by (simp only: ulp32_def powr_add [symmetric]) simp
  ultimately show ?thesis using x by (simp add: round32_def)
qed

lemma round32_nonneg: "0 \<le> x \<Longrightarrow> 0 \<le> round32 x"
proof -
  assume x: "0 \<le> x"
  have "0 \<le> x / ulp32 x" using x ulp32_pos[of x] by simp
  then have "0 \<le> rne (x / ulp32 x)" using rne_ge[of 0 "x / ulp32 x"] by simp
  then show ?thesis using ulp32_pos[of x] by (simp add: round32_def)
qed

lemma round32_mono:
  assumes x: "0 < x" and xy: "x \<le> y"
  shows "round32 x \<le> round32 y"
proof (cases "expo32 x = expo32 y")
  case True
  then have u: "ulp32 y = ulp32 x" by (simp add: ulp32_def)
  have "x / ulp32 x \<le> y / ulp32 x" using xy ulp32_pos[of x] by (simp add: divide_right_mono)
  then have "rne (x / ulp32 x) \<le> rne (y / ulp32 x)" by (rule rne_mono)
  then have "ulp32 x * of_int (rne (x / ulp32 x)) \<le> ulp32 x * of_int (rne (y / ulp32 x))"
    using ulp32_pos[of x] by simp
  then show ?thesis using x xy u by (simp add: round32_def)
next
  case False
  with expo32_mono[OF x xy] have lt: "expo32 x + 1 \<le> expo32 y" by simp
  have y: "0 < y" using x xy by simp
  have e: "- 126 < expo32 y" using lt by (simp add: expo32_def)
  have "round32 x \<le> 2 powr (of_int (expo32 x) + 1)" by (rule round32_upper[OF x])
  also have "\<dots> \<le> 2 powr (of_int (expo32 y))" using lt by simp
  also have "\<dots> \<le> round32 y" by (rule round32_lower[OF y e])
  finally show ?thesis .
qed

lemma fmod_range:
  assumes b: "0 < (b::real)"
  shows "- b < a - b * of_int (trunc (a / b)) \<and> a - b * of_int (trunc (a / b)) < b"
proof -
  have a: "a = b * (a / b)" using b by simp
  have "a - b * of_int (trunc (a / b)) = b * (a / b - of_int (trunc (a / b)))"
    using b by (simp add: algebra_simps)
  moreover have "- 1 < a / b - of_int (trunc (a / b)) \<and> a / b - of_int (trunc (a / b)) < 1"
    unfolding trunc_def by (auto; linarith)
  ultimately show ?thesis using b
    by (metis mult.commute mult.right_neutral mult_minus_right mult_strict_left_mono)
qed

lemma mod_loop_b32:
  "mod_loop binary32_flops out b =
     (if out < 0 then mod_loop binary32_flops (round32 (out + b)) b else Some out)"
  by (subst mod_loop.simps) (simp add: binary32_flops_def exact_flops_def)

text \<open>
  C10. The \<^verbatim>\<open>MOD\<close> case of the scalar value kernel in binary32, for finite floats \<open>a\<close> and
  \<open>b\<close> with \<open>b > 0\<close>: the loop \<^verbatim>\<open>while (out[i] < 0) out[i] += b[i]\<close> ends (after at most
  one addition) and the element returned lies in the closed range \<open>[0, b]\<close>.
\<close>

theorem mod_range:
  assumes fa: "is_float32 a" and fb: "is_float32 b" and b: "0 < b"
  shows "\<exists>r. mod_elem binary32_flops a b = Ok r \<and> 0 \<le> r \<and> r \<le> b"
proof -
  let ?r = "a - b * of_int (trunc (a / b))"
  have f: "c_fmod binary32_flops a b = ?r" by (simp add: binary32_flops_def exact_flops_def)
  from fmod_range[OF b, of a] have lo: "- b < ?r" and hi: "?r < b" by simp_all
  show ?thesis
  proof (cases "?r < 0")
    case False
    then have "mod_loop binary32_flops ?r b = Some ?r" by (subst mod_loop_b32) simp
    then show ?thesis using False hi by (simp add: mod_elem_def f)
  next
    case True
    let ?s = "round32 (?r + b)"
    have p: "0 < ?r + b" "?r + b \<le> b" using lo True by simp_all
    have s0: "0 \<le> ?s" using p by (intro round32_nonneg) simp
    have "?s \<le> round32 b" by (rule round32_mono[OF p])
    then have sb: "?s \<le> b" using fb by (simp add: is_float32_def)
    have "mod_loop binary32_flops ?s b = Some ?s" using s0 by (subst mod_loop_b32) simp
    then have "mod_loop binary32_flops ?r b = Some ?s" using True by (subst mod_loop_b32) simp
    then show ?thesis using s0 sb by (simp add: mod_elem_def f)
  qed
qed

lemma round32_eval:
  assumes lo: "2 powr of_int k \<le> \<bar>x\<bar>" and hi: "\<bar>x\<bar> < 2 powr (of_int k + 1)"
    and k: "- 126 \<le> k" and n: "\<bar>x / 2 powr (of_int k - 23) - of_int n\<bar> < 1 / 2"
  shows "round32 x = 2 powr (of_int k - 23) * of_int n"
proof -
  have x: "0 < \<bar>x\<bar>" using lo by (smt (verit) powr_gt_zero)
  then have "\<lfloor>log 2 \<bar>x\<bar>\<rfloor> = k" using lo hi by (simp add: floor_log_eq_powr_iff)
  then have e: "expo32 x = k" using k by (simp add: expo32_def)
  then have u: "ulp32 x = 2 powr (of_int k - 23)" by (simp add: ulp32_def)
  have "rne (x / ulp32 x) = n" unfolding u by (rule rne_near[OF n])
  then show ?thesis using x u by (simp add: round32_def)
qed

lemma round32_one: "round32 1 = 1"
  using round32_eval[of 0 1 "2 ^ 23"] by (simp add: powr_minus field_simps)

lemma round32_tiny: "round32 (- (1 / 2 ^ 100)) = - (1 / 2 ^ 100)"
  using round32_eval[of "- 100" "- (1 / 2 ^ 100)" "- (2 ^ 23)"]
  by (simp add: powr_minus field_simps)

lemma round32_below_one: "round32 (- (1 / 2 ^ 100) + 1) = 1"
  using round32_eval[of "- 1" "- (1 / 2 ^ 100) + 1" "2 ^ 24"]
  by (simp add: powr_minus field_simps)

lemma round32_quarter: "round32 (- (1 / 4)) = - (1 / 4)"
  using round32_eval[of "- 2" "- (1 / 4)" "- (2 ^ 23)"]
  by (simp add: powr_minus field_simps)

lemma round32_three_quarters: "round32 (3 / 4) = 3 / 4"
  using round32_eval[of "- 1" "3 / 4" "3 * 2 ^ 22"]
  by (simp add: powr_minus field_simps)

lemma trunc_small: "- 1 < q \<Longrightarrow> q < 1 \<Longrightarrow> trunc q = 0"
  unfolding trunc_def by (auto; linarith)

text \<open>
  \<^verbatim>\<open>fmod(-0.25, 1)\<close> is \<open>-0.25\<close>; one addition gives \<open>0.75\<close>.
\<close>

theorem mod_range_witness:
  "is_float32 (- (1 / 4)) \<and> is_float32 1 \<and> (0::real) < 1
   \<and> mod_elem binary32_flops (- (1 / 4)) 1 = Ok (3 / 4) \<and> (0::real) \<le> 3 / 4 \<and> (3 / 4 :: real) \<le> 1"
proof -
  have a: "is_float32 (- (1 / 4))" by (simp add: is_float32_def round32_quarter)
  have b: "is_float32 1" by (simp add: is_float32_def round32_one)
  have t: "trunc (- (1 / 4)) = 0" by (rule trunc_small) simp_all
  have m: "mod_elem binary32_flops (- (1 / 4)) 1 = Ok (3 / 4)"
    unfolding mod_elem_def
    by (subst mod_loop_b32, subst mod_loop_b32)
       (simp add: binary32_flops_def exact_flops_def t round32_three_quarters)
  from mod_range[OF a b] m a b show ?thesis by simp
qed

text \<open>
  The upper end is reached: \<^verbatim>\<open>fmod(-2\<^sup>-\<^sup>1\<^sup>0\<^sup>0, 1)\<close> is \<open>-2\<^sup>-\<^sup>1\<^sup>0\<^sup>0\<close>, and the sum
  \<open>1 - 2\<^sup>-\<^sup>1\<^sup>0\<^sup>0\<close> lies between the floats \<open>1 - 2\<^sup>-\<^sup>2\<^sup>4\<close> and \<open>1\<close>, nearer to \<open>1\<close>: the element
  returned is the divisor itself, outside the half-open range \<open>[0, b)\<close>.
\<close>

theorem mod_range_counterexample:
  "is_float32 (- (1 / 2 ^ 100)) \<and> is_float32 1 \<and> (0::real) < 1
   \<and> mod_elem binary32_flops (- (1 / 2 ^ 100)) 1 = Ok 1 \<and> \<not> (1::real) < 1"
proof -
  have a: "is_float32 (- (1 / 2 ^ 100))" using round32_tiny by (simp add: is_float32_def)
  have b: "is_float32 1" by (simp add: is_float32_def round32_one)
  have t: "trunc (- (1 / 2 ^ 100)) = 0" by (rule trunc_small) simp_all
  have m: "mod_elem binary32_flops (- (1 / 2 ^ 100)) 1 = Ok 1"
    unfolding mod_elem_def
    using round32_below_one t
    by (subst mod_loop_b32, subst mod_loop_b32) (simp add: binary32_flops_def exact_flops_def)
  from m a b show ?thesis by simp
qed

section \<open>Facts about the passes\<close>

lemma obind_Ok_right [simp]: "obind m Ok = m"
  by (cases m) auto



lemma upd_result_simps [simp]:
  "ev_rows (upd_result e c g) = ev_rows e"
  "ev_root (upd_result e c g) = ev_root e"
  "ev_X (upd_result e c g) = ev_X e"
  "ev_Y (upd_result e c g) = ev_Y e"
  "ev_Z (upd_result e c g) = ev_Z e"
  "ev_M (upd_result e c g) = ev_M e"
  "ev_Mi (upd_result e c g) = ev_Mi e"
  "cl_op (ev_data (upd_result e c g) k) = cl_op (ev_data e k)"
  "cl_a (ev_data (upd_result e c g) k) = cl_a (ev_data e k)"
  "cl_b (ev_data (upd_result e c g) k) = cl_b (ev_data e k)"
  "cl_disabled (ev_data (upd_result e c g) k) = cl_disabled (ev_data e k)"
  "cl_result (ev_data (upd_result e c g) k) =
     (if k = c then g (cl_result (ev_data e c)) else cl_result (ev_data e k))"
  by (simp_all add: upd_result_def)





lemma operands_upd [simp]: "operands (upd_result s c g) k = operands s k"
  by (simp add: operands_def)

lemma getOpcode_upd [simp]: "getOpcode (upd_result s c g) k = getOpcode s k"
  by (simp add: getOpcode_def)

lemma getOpcode_rows [simp]: "getOpcode (s\<lparr>ev_rows := R\<rparr>) k = getOpcode s k"
  by (simp add: getOpcode_def)


lemma ptrs_rows [simp]: "ptrs (s\<lparr>ev_rows := R\<rparr>) p = ptrs s p"
  by (cases p) (simp_all add: ptrs_def)


lemma operand_i_rows [simp]: "operand_i I (s\<lparr>ev_rows := R\<rparr>) p = operand_i I s p"
  by (cases p) (simp_all add: operand_i_def)


section \<open>Utilization\<close>

lemma ulp64_pos: "0 < ulp64 x"
  by (simp add: ulp64_def)

lemma expo64_mono: "0 < x \<Longrightarrow> x \<le> y \<Longrightarrow> expo64 x \<le> expo64 y"
proof -
  assume "0 < x" "x \<le> y"
  then have "log 2 \<bar>x\<bar> \<le> log 2 \<bar>y\<bar>" by simp
  then have "\<lfloor>log 2 \<bar>x\<bar>\<rfloor> \<le> \<lfloor>log 2 \<bar>y\<bar>\<rfloor>" by (rule floor_mono)
  then show ?thesis by (simp add: expo64_def)
qed

lemma expo64_upper: "0 < x \<Longrightarrow> x < 2 powr (of_int (expo64 x) + 1)"
proof -
  assume x: "0 < x"
  have "log 2 x < of_int \<lfloor>log 2 x\<rfloor> + 1" by linarith
  also have "\<dots> \<le> of_int (expo64 x) + 1" using x by (simp add: expo64_def)
  finally have "log 2 x < of_int (expo64 x) + 1" .
  then show ?thesis using x by (simp add: log_less_iff)
qed

lemma expo64_lower: "0 < x \<Longrightarrow> - 1022 < expo64 x \<Longrightarrow> 2 powr (of_int (expo64 x)) \<le> x"
proof -
  assume x: "0 < x" and e: "- 1022 < expo64 x"
  then have "expo64 x = \<lfloor>log 2 x\<rfloor>" by (simp add: expo64_def max_def split: if_splits)
  then have "of_int (expo64 x) \<le> log 2 x" by simp
  then show ?thesis using x by (simp add: le_log_iff)
qed

lemma round64_upper:
  assumes x: "0 < x"
  shows "round64 x \<le> 2 powr (of_int (expo64 x) + 1)"
proof -
  have "x / ulp64 x < 2 powr (of_int (expo64 x) + 1) / ulp64 x"
    using expo64_upper[OF x] ulp64_pos[of x] by (simp add: divide_strict_right_mono)
  also have "2 powr (of_int (expo64 x) + 1) / ulp64 x = 2 powr 53"
    by (simp add: ulp64_def powr_diff [symmetric])
  also have "(2::real) powr 53 = of_int (2 ^ 53)" by simp
  finally have "rne (x / ulp64 x) \<le> 2 ^ 53" by (intro rne_le) simp
  then have "of_int (rne (x / ulp64 x)) \<le> (2::real) powr 53" by simp
  then have "ulp64 x * of_int (rne (x / ulp64 x)) \<le> ulp64 x * 2 powr 53"
    using ulp64_pos[of x] by (simp only: mult_le_cancel_left_pos)
  also have "ulp64 x * 2 powr 53 = 2 powr (of_int (expo64 x) + 1)"
    by (simp only: ulp64_def powr_add [symmetric]) (simp add: add.commute)
  finally show ?thesis using x by (simp add: round64_def)
qed

lemma round64_lower:
  assumes x: "0 < x" and e: "- 1022 < expo64 x"
  shows "2 powr (of_int (expo64 x)) \<le> round64 x"
proof -
  have "2 powr (of_int (expo64 x)) / ulp64 x \<le> x / ulp64 x"
    using expo64_lower[OF x e] ulp64_pos[of x] by (simp add: divide_right_mono)
  moreover have "2 powr (of_int (expo64 x)) / ulp64 x = 2 powr 52"
    by (simp add: ulp64_def powr_diff [symmetric])
  moreover have "(2::real) powr 52 = of_int (2 ^ 52)" by simp
  ultimately have "2 ^ 52 \<le> rne (x / ulp64 x)" by (intro rne_ge) simp
  then have "(2::real) powr 52 \<le> of_int (rne (x / ulp64 x))" by simp
  then have "ulp64 x * 2 powr 52 \<le> ulp64 x * of_int (rne (x / ulp64 x))"
    using ulp64_pos[of x] by (simp only: mult_le_cancel_left_pos)
  moreover have "ulp64 x * 2 powr 52 = 2 powr (of_int (expo64 x))"
    by (simp only: ulp64_def powr_add [symmetric]) simp
  ultimately show ?thesis using x by (simp add: round64_def)
qed

lemma round64_nonneg: "0 \<le> x \<Longrightarrow> 0 \<le> round64 x"
proof -
  assume x: "0 \<le> x"
  have "0 \<le> x / ulp64 x" using x ulp64_pos[of x] by simp
  then have "0 \<le> rne (x / ulp64 x)" using rne_ge[of 0 "x / ulp64 x"] by simp
  then show ?thesis using ulp64_pos[of x] by (simp add: round64_def)
qed

lemma round64_mono:
  assumes x: "0 < x" and xy: "x \<le> y"
  shows "round64 x \<le> round64 y"
proof (cases "expo64 x = expo64 y")
  case True
  then have u: "ulp64 y = ulp64 x" by (simp add: ulp64_def)
  have "x / ulp64 x \<le> y / ulp64 x" using xy ulp64_pos[of x] by (simp add: divide_right_mono)
  then have "rne (x / ulp64 x) \<le> rne (y / ulp64 x)" by (rule rne_mono)
  then have "ulp64 x * of_int (rne (x / ulp64 x)) \<le> ulp64 x * of_int (rne (y / ulp64 x))"
    using ulp64_pos[of x] by simp
  then show ?thesis using x xy u by (simp add: round64_def)
next
  case False
  with expo64_mono[OF x xy] have lt: "expo64 x + 1 \<le> expo64 y" by simp
  have y: "0 < y" using x xy by simp
  have e: "- 1022 < expo64 y" using lt by (simp add: expo64_def)
  have "round64 x \<le> 2 powr (of_int (expo64 x) + 1)" by (rule round64_upper[OF x])
  also have "\<dots> \<le> 2 powr (of_int (expo64 y))" using lt by simp
  also have "\<dots> \<le> round64 y" by (rule round64_lower[OF y e])
  finally show ?thesis .
qed

lemma round64_eval:
  assumes lo: "2 powr of_int k \<le> \<bar>x\<bar>" and hi: "\<bar>x\<bar> < 2 powr (of_int k + 1)"
    and k: "- 1022 \<le> k" and n: "\<bar>x / 2 powr (of_int k - 52) - of_int n\<bar> < 1 / 2"
  shows "round64 x = 2 powr (of_int k - 52) * of_int n"
proof -
  have x: "0 < \<bar>x\<bar>" using lo by (smt (verit) powr_gt_zero)
  then have "\<lfloor>log 2 \<bar>x\<bar>\<rfloor> = k" using lo hi by (simp add: floor_log_eq_powr_iff)
  then have e: "expo64 x = k" using k by (simp add: expo64_def)
  then have u: "ulp64 x = 2 powr (of_int k - 52)" by (simp add: ulp64_def)
  have "rne (x / ulp64 x) = n" unfolding u by (rule rne_near[OF n])
  then show ?thesis using x u by (simp add: round64_def)
qed

lemma round64_one: "round64 1 = 1"
  using round64_eval[of 0 1 "2 ^ 52"] by (simp add: powr_minus field_simps)

lemma round64_nat:
  assumes n: "n < 2 ^ 53"
  shows "round64 (real n) = real n"
proof (cases "n = 0")
  case True
  then show ?thesis by (simp add: round64_def)
next
  case False
  let ?x = "real n"
  let ?k = "\<lfloor>log 2 ?x\<rfloor>"
  have x1: "1 \<le> ?x" using False by simp
  then have k0: "0 \<le> ?k" by simp
  have "?x < 2 powr 53" using n by (simp add: powr_realpow [symmetric] del: powr_numeral)
  then have "log 2 ?x < 53" using x1 by (simp add: log_less_iff)
  then have k52: "?k \<le> 52" by linarith
  have e: "expo64 ?x = ?k" using k0 by (simp add: expo64_def)
  define m where "m = nat (52 - ?k)"
  have km: "of_int ?k - 52 = - real m" using k52 by (simp add: m_def)
  have u: "ulp64 ?x = 1 / 2 ^ m"
    unfolding ulp64_def e km by (simp add: powr_minus powr_realpow inverse_eq_divide)
  have q: "?x / ulp64 ?x = of_int (int n * 2 ^ m)" unfolding u by simp
  have "round64 ?x = ulp64 ?x * of_int (rne (?x / ulp64 ?x))"
    using False by (simp add: round64_def)
  also have "\<dots> = ulp64 ?x * of_int (int n * 2 ^ m)" by (simp only: q rne_int)
  also have "\<dots> = ?x" unfolding u by simp
  finally show ?thesis .
qed

lemma dsum_exact_aux:
  "k + sum_list ns < 2 ^ 53 \<Longrightarrow>
   fold (\<lambda>n t. round64 (t + round64 (real n))) ns (real k) = real (k + sum_list ns)"
proof (induction ns arbitrary: k)
  case Nil
  then show ?case by simp
next
  case (Cons n ns)
  have n: "n < 2 ^ 53" and kn: "k + n < 2 ^ 53" using Cons.prems by simp_all
  have "round64 (real k + round64 (real n)) = real (k + n)"
    using round64_nat[OF n] round64_nat[OF kn] by simp
  moreover have "(k + n) + sum_list ns < 2 ^ 53" using Cons.prems by simp
  ultimately show ?case using Cons.IH[of "k + n"] by (simp add: add.assoc)
qed

lemma dsum_exact: "sum_list ns < 2 ^ 53 \<Longrightarrow> dsum ns = real (sum_list ns)"
  using dsum_exact_aux[of 0 ns] by (simp add: dsum_def)

lemma sum_list_le:
  "(\<And>r. r \<in> set rs \<Longrightarrow> f r \<le> (g r :: nat)) \<Longrightarrow> sum_list (map f rs) \<le> sum_list (map g rs)"
  by (induction rs) (auto intro: add_mono)

text \<open>
  C6 (as the code has it). For every evaluator in which each row's \<^verbatim>\<open>active\<close> count
  is at most the row's size, some row is not empty and the rows hold fewer than \<open>2\<^sup>5\<^sup>3\<close>
  clauses together, \<^verbatim>\<open>utilization()\<close> returns the double nearest to the sum of the
  active counts of all rows divided by the sum of the sizes of all rows, and this
  value lies between 0 and 1 inclusive.
\<close>

theorem utilization_ratio:
  assumes act: "\<forall>r \<in> set (ev_rows e). row_active r \<le> length (row_clauses r)"
    and ne: "\<exists>r \<in> set (ev_rows e). row_clauses r \<noteq> []"
    and small: "(\<Sum>r\<leftarrow>ev_rows e. length (row_clauses r)) < 2 ^ 53"
  shows "\<exists>u. utilization e = Fin u
          \<and> u = round64 (real (\<Sum>r\<leftarrow>ev_rows e. row_active r)
                           / real (\<Sum>r\<leftarrow>ev_rows e. length (row_clauses r)))
          \<and> 0 \<le> u \<and> u \<le> 1"
proof -
  let ?t = "\<Sum>r\<leftarrow>ev_rows e. length (row_clauses r)"
  let ?a = "\<Sum>r\<leftarrow>ev_rows e. row_active r"
  from ne obtain r where r: "r \<in> set (ev_rows e)" "row_clauses r \<noteq> []" by auto
  have "length (row_clauses r) \<le> ?t"
    using r(1) by (simp add: member_le_sum_list)
  then have t: "0 < ?t" using r(2) by (cases "row_clauses r") auto
  have le: "?a \<le> ?t" using act by (intro sum_list_le) auto
  have dt: "dsum (map (\<lambda>r. length (row_clauses r)) (ev_rows e)) = real ?t"
    using small by (rule dsum_exact)
  have da: "dsum (map row_active (ev_rows e)) = real ?a"
    using small le by (intro dsum_exact) simp
  have u: "utilization e = Fin (round64 (real ?a / real ?t))"
    using t ne by (auto simp add: utilization_def Let_def dt da)
  have q0: "0 \<le> real ?a / real ?t" by simp
  have q1: "real ?a / real ?t \<le> 1" using le t by (simp add: divide_le_eq)
  have "0 \<le> round64 (real ?a / real ?t)" using q0 by (rule round64_nonneg)
  moreover have "round64 (real ?a / real ?t) \<le> 1"
  proof (cases "?a = 0")
    case True
    then show ?thesis by (simp add: round64_def)
  next
    case False
    then have "0 < ?a" by arith
    then have "0 < real ?a / real ?t" using t
      by (intro divide_pos_pos) (simp_all only: of_nat_0_less_iff)
    from round64_mono[OF this q1] show ?thesis by (simp add: round64_one)
  qed
  ultimately show ?thesis using u by blast
qed

text \<open>
  The evaluator of \<^verbatim>\<open>min(-x, -y)\<close> with one negation pruned: 2 active clauses of 3, and
  the double nearest to \<open>2/3\<close>.
\<close>

lemma round64_two_thirds: "round64 (2 / 3) = 6004799503160661 / 2 ^ 53"
  using round64_eval[of "- 1" "2 / 3" 6004799503160661]
  by (simp add: powr_minus field_simps)

theorem utilization_ratio_witness:
  "list_all (\<lambda>r. row_active r \<le> length (row_clauses r)) (ev_rows ex_pruned)
   \<and> list_ex (\<lambda>r. row_clauses r \<noteq> []) (ev_rows ex_pruned)
   \<and> (\<Sum>r\<leftarrow>ev_rows ex_pruned. length (row_clauses r)) < 2 ^ 53
   \<and> utilization ex_pruned = Fin (6004799503160661 / 2 ^ 53)"
proof -
  have a: "\<forall>r \<in> set (ev_rows ex_pruned). row_active r \<le> length (row_clauses r)"
    by (simp add: ex_pruned_def ex_eval_def)
  have b: "\<exists>r \<in> set (ev_rows ex_pruned). row_clauses r \<noteq> []"
    by (simp add: ex_pruned_def ex_eval_def)
  have c: "(\<Sum>r\<leftarrow>ev_rows ex_pruned. length (row_clauses r)) < 2 ^ 53"
    by (simp add: ex_pruned_def ex_eval_def)
  have q: "real (\<Sum>r\<leftarrow>ev_rows ex_pruned. row_active r)
            / real (\<Sum>r\<leftarrow>ev_rows ex_pruned. length (row_clauses r)) = 2 / 3"
    by (simp add: ex_pruned_def ex_eval_def)
  from utilization_ratio[OF a b c] have "utilization ex_pruned = Fin (round64 (2 / 3))"
    unfolding q by blast
  then have "utilization ex_pruned = Fin (6004799503160661 / 2 ^ 53)"
    unfolding round64_two_thirds .
  with c show ?thesis by (simp add: ex_pruned_def ex_eval_def)
qed

text \<open>
  On that evaluator the code returns the double nearest to \<open>2/3\<close>, while the mean over
  the two rows of active count by size is \<open>(1/2 + 1/1) / 2 = 3/4\<close>.
\<close>

lemma dsum_2_1: "dsum [Suc (Suc 0), Suc 0] = 3"
  using dsum_exact[of "[Suc (Suc 0), Suc 0]"] by simp

lemma dsum_1_1: "dsum [Suc 0, Suc 0] = 2"
  using dsum_exact[of "[Suc 0, Suc 0]"] by simp

theorem utilization_counterexample:
  "utilization ex_pruned = Fin (6004799503160661 / 2 ^ 53) \<and> utilization_spec ex_pruned = 3 / 4
   \<and> (6004799503160661 / 2 ^ 53 :: real) \<noteq> 3 / 4"
proof -
  have "utilization ex_pruned = Fin (round64 (2 / 3))"
    by (simp add: utilization_def Let_def ex_pruned_def ex_eval_def dsum_2_1 dsum_1_1)
  then have "utilization ex_pruned = Fin (6004799503160661 / 2 ^ 53)"
    unfolding round64_two_thirds .
  moreover have "utilization_spec ex_pruned = 3 / 4"
    by (simp add: utilization_spec_def ex_pruned_def ex_eval_def)
  ultimately show ?thesis by simp
qed

section \<open>Push followed by pop\<close>

subsection \<open>What push and pop change\<close>



lemma set_disabled_simps [simp]:
  "ev_rows (set_disabled s c d) = ev_rows s"
  "ev_root (set_disabled s c d) = ev_root s"
  "cl_disabled (ev_data (set_disabled s c d) k) = (if k = c then d else cl_disabled (ev_data s k))"
  by (simp_all add: set_disabled_def)













subsection \<open>Reordering the active clauses of a row\<close>

text \<open>
  Two steps of a pass on clauses of one row commute, since neither reads what the
  other writes; so a pass over the same clauses in another order returns the same.
\<close>

lemma ok_eq_refl [simp]: "ok_eq m m"
  by (simp add: ok_eq_def)






lemma ops_like_refl [simp]: "ops_like e e"
  by (simp add: ops_like_def)










subsection \<open>The passes and the four calls\<close>



































end
